theory Spec2Isabelle
  imports Complex_Main
begin

section \<open>The price-taker model of \<open>price_taker_model.py\<close>\<close>

text \<open>
  A shallow embedding of the class \<open>PriceTakerModel\<close>. Python integers are \<open>int\<close>, prices
  (Python floats) are \<open>real\<close>, an exception is a value of \<open>py_error\<close> on the left of a sum,
  the attributes of \<open>self\<close> are the fields of the record \<open>ptm\<close>, and a method that assigns
  attributes returns the updated record together with the exception that stopped it, if any.
\<close>

datatype py_error =
  ValueError | TypeError | IndexError | KeyError | AttributeError
  | ZeroDivisionError | UnboundLocalError

subsection \<open>Lists, slices and ranges\<close>

text \<open>Python's \<open>xs[i]\<close> on a list or an array: a negative index counts from the end.\<close>

definition py_nth :: "'a list \<Rightarrow> int \<Rightarrow> py_error + 'a" where
  "py_nth xs i =
     (let n = int (length xs); j = (if i < 0 then i + n else i)
      in if 0 \<le> j \<and> j < n then Inr (xs ! nat j) else Inl IndexError)"

text \<open>The bound of a slice \<open>xs[i:j]\<close>, clipped to the sequence as Python does.\<close>

definition py_index :: "nat \<Rightarrow> int \<Rightarrow> nat" where
  "py_index n i = (if i < 0 then nat (max (i + int n) 0) else min (nat i) n)"

definition py_slice :: "'a list \<Rightarrow> int \<Rightarrow> int \<Rightarrow> 'a list" where
  "py_slice xs i j =
     (let lo = py_index (length xs) i; hi = py_index (length xs) j
      in take (hi - lo) (drop lo xs))"

text \<open>
  Pyomo's \<open>RangeSet(lo, hi)\<close> with unit step: the integers \<open>lo, \<dots>, hi\<close>, the empty set when
  \<open>hi = lo - 1\<close>, and a \<open>ValueError\<close> for bounds further out of order.
  \<open>RangeSet(n)\<close> is \<open>RangeSet(1, n)\<close>.
\<close>

definition RangeSet :: "int \<Rightarrow> int \<Rightarrow> py_error + int list" where
  "RangeSet lo hi = (if hi < lo - 1 then Inl ValueError else Inr [lo..hi])"

subsection \<open>Tables\<close>

text \<open>
  A column label of a spreadsheet is a string or an integer. A pandas object read from it is
  a \<open>Series\<close> (one column of prices) or a \<open>DataFrame\<close> (labelled columns, in order).
\<close>

datatype label = LStr string | LInt int

datatype pd = Series "real list" | DataFrame "(label \<times> real list) list"

text \<open>\<open>len\<close> of a table of columns is its number of rows.\<close>

definition n_rows :: "(label \<times> real list) list \<Rightarrow> nat" where
  "n_rows cols = (case cols of [] \<Rightarrow> 0 | c # _ \<Rightarrow> length (snd c))"

text \<open>
  The daily table: a frame whose columns are labelled by day indices. A column created by
  \<open>pd.DataFrame(columns=day_list)\<close> and never assigned holds no values (\<open>None\<close>).
  \<open>daily_data[day] = v\<close> overwrites the column labelled \<open>day\<close>, or appends a new column
  when there is none. Every value assigned below is a slice re-indexed from 0 of one and
  the same length, so pandas' alignment on the row index leaves it as it is.
\<close>

type_synonym 'a frame = "(int \<times> 'a list option) list"

definition DataFrame_columns :: "int list \<Rightarrow> 'a frame" where
  "DataFrame_columns day_list = map (\<lambda>c. (c, None)) day_list"

definition setitem :: "'a frame \<Rightarrow> int \<Rightarrow> 'a list \<Rightarrow> 'a frame" where
  "setitem df c v =
     (if c \<in> set (map fst df)
      then map (\<lambda>(k, x). if k = c then (k, Some v) else (k, x)) df
      else df @ [(c, Some v)])"

subsection \<open>The model object\<close>

text \<open>Keys of the price and weight dictionaries: an integer or a tuple of integers.\<close>

datatype key = K1 int | K2 int int | K3 int int int

text \<open>
  Pyomo expressions, symbolically. \<open>ExprObj i e\<close> is a named \<open>Expression\<close> component with body
  \<open>e\<close>; \<open>i\<close> is the identity of the Python object, drawn from the counter \<open>next_id\<close> of the
  model each time the code calls \<open>Expression(expr=...)\<close>.
\<close>

datatype expr =
  Num real | Var string | ExprObj nat expr
  | Add expr expr | Sub expr expr | Mul expr expr | Div expr expr

fun eval :: "(string \<Rightarrow> real) \<Rightarrow> expr \<Rightarrow> real" where
  "eval env (Num c) = c"
| "eval env (Var x) = env x"
| "eval env (ExprObj i e) = eval env e"
| "eval env (Add a b) = eval env a + eval env b"
| "eval env (Sub a b) = eval env a - eval env b"
| "eval env (Mul a b) = eval env a * eval env b"
| "eval env (Div a b) = eval env a / eval env b"

text \<open>A relational expression handed to \<open>Constraint\<close>: \<open>a <= b\<close>, \<open>a == b\<close> or \<open>a >= b\<close>.\<close>

datatype con = Le expr expr | Eq expr expr | Ge expr expr

fun con_holds :: "(string \<Rightarrow> real) \<Rightarrow> con \<Rightarrow> bool" where
  "con_holds env (Le a b) = (eval env a \<le> eval env b)"
| "con_holds env (Eq a b) = (eval env a = eval env b)"
| "con_holds env (Ge a b) = (eval env a \<ge> eval env b)"

text \<open>
  The blocks that \<open>component_data_objects(Block)\<close> yields: operation models expose \<open>op_mode\<close>
  and \<open>startup\<close>, design models expose \<open>capex\<close> and \<open>fom\<close>.
\<close>

datatype blk =
  OperationModelData (blk_op_mode: expr) (blk_startup: expr)
  | DesignModelData (blk_capex: expr) (blk_fom: expr)
  | OtherBlock

text \<open>
  One block of \<open>mp_model.period\<close>: its sub-blocks and the attributes the code reads or
  assigns (\<open>None\<close>: no such attribute).
\<close>

record period_blk =
  sub_blocks :: "blk list"
  opt_power :: "expr option"
  op_mode :: "expr option"
  startup :: "expr option"
  net_cash_inflow :: "expr option"

text \<open>
  The multi-period model: the indexed block \<open>period\<close>, in iteration order and keyed by tuples
  of integers, and the indexed constraints the methods attach to it.
\<close>

record mp =
  period :: "(int list \<times> period_blk) list"
  ramp_up_con :: "(int \<times> con) list option"
  ramp_down_con :: "(int \<times> con) list option"
  startup_con1 :: "(int \<times> con) list option"
  stutdown_con1 :: "(int \<times> con) list option"

text \<open>The domain of a variable: Pyomo's \<open>Reals\<close> (the default) or \<open>NonNegativeReals\<close>.\<close>

datatype domain = AnyReals | NonNegativeReals

datatype sense = maximize | minimize

text \<open>The components \<open>build_cashflows\<close> attaches to the model under an attribute name.\<close>

datatype component =
  VarC domain | ConstraintC con | ExpressionC nat expr | ObjectiveC expr sense

text \<open>
  The attributes of a \<open>PriceTakerModel\<close>. An attribute that was never assigned reads as
  \<open>None\<close> (as the empty dictionary for \<open>LMP\<close> and \<open>WEIGHTS\<close>); \<open>blocks\<close> is what
  \<open>self.component_data_objects(Block)\<close> yields, and \<open>components\<close> holds the Pyomo
  components attached under a name (assigning a name again replaces the component).
\<close>

record ptm =
  seed :: int
  horizon_length :: int
  set_years :: "int list option"
  set_days :: "int list option"
  n_time_points :: "int option"
  set_time :: "int list option"
  LMP :: "key \<rightharpoonup> real"
  WEIGHTS :: "key \<rightharpoonup> real"
  mp_model :: "mp option"
  blocks :: "blk list"
  ramp_up_down_range :: "int list option"
  range_time_periods_SU :: "int list option"
  range_time_periods_SD :: "int list option"
  components :: "string \<rightharpoonup> component"
  next_id :: nat

text \<open>\<open>__init__\<close> stores both arguments in the private attributes directly.\<close>

definition PriceTakerModel_init :: "int \<Rightarrow> int \<Rightarrow> py_error + ptm" where
  "PriceTakerModel_init seed0 horizon_length0 =
     Inr \<lparr>seed = seed0, horizon_length = horizon_length0, set_years = None, set_days = None,
          n_time_points = None, set_time = None, LMP = Map.empty, WEIGHTS = Map.empty,
          mp_model = None, blocks = [], ramp_up_down_range = None,
          range_time_periods_SU = None, range_time_periods_SD = None,
          components = Map.empty, next_id = 0\<rparr>"

text \<open>The setter of the property \<open>horizon_length\<close>.\<close>

definition horizon_length_setter :: "int \<Rightarrow> ptm \<Rightarrow> py_error + ptm" where
  "horizon_length_setter val self =
     (if val \<le> 0 then Inl ValueError else Inr (self\<lparr>horizon_length := val\<rparr>))"

subsection \<open>Daily reshaping\<close>

text \<open>
  The \<open>while\<close> loop of \<open>generate_daily_data\<close> with its variables \<open>i\<close>, \<open>j\<close>, \<open>day\<close> and
  \<open>daily_data\<close>. It does not return for every \<open>horizon_length\<close>, so it is a partial function:
  \<open>None\<close> is the run that never ends.
\<close>

partial_function (option) daily_loop ::
  "int \<Rightarrow> 'a list \<Rightarrow> int \<Rightarrow> int \<Rightarrow> int \<Rightarrow> 'a frame \<Rightarrow> 'a frame option" where
  "daily_loop h raw_data i j day daily_data =
     (if j \<le> int (length raw_data)
      then daily_loop h raw_data j (j + h) (day + 1)
             (setitem daily_data day (py_slice raw_data i j))
      else Some daily_data)"

definition generate_daily_data :: "int \<Rightarrow> 'a list \<Rightarrow> int list \<Rightarrow> 'a frame option" where
  "generate_daily_data h raw_data day_list =
     daily_loop h raw_data 0 h 1 (DataFrame_columns day_list)"

text \<open>The \<open>d\<close>-th window of \<open>h\<close> samples, \<open>raw[(d-1)*h : d*h]\<close>, for reference in the theorems.\<close>

definition window :: "int \<Rightarrow> 'a list \<Rightarrow> int \<Rightarrow> 'a list" where
  "window h raw d = take (nat h) (drop (nat ((d - 1) * h)) raw)"

subsection \<open>The libraries the methods call\<close>

text \<open>
  The fit \<open>KMeans(n_clusters=k).fit(daily_data.transpose())\<close>: the cluster centres (one row
  per cluster), the label of every sample (every day) and the inertia.
\<close>

record kmeans =
  cluster_centers :: "real list list"
  labels :: "int list"
  inertia :: real

text \<open>
  The code of scikit-learn, numpy and kneed is not part of the repository, so the calls into
  them are parameters of the model. A fit is built with no \<open>random_state\<close>, so it draws
  from numpy's global generator: it reads the generator's state (of type \<open>'g\<close>) and leaves
  a new one. \<open>seed_rng\<close> is \<open>np.random.seed\<close>, \<open>knee\<close> the attribute \<open>knee\<close> of a
  \<open>KneeLocator\<close> (convex, decreasing), which is \<open>None\<close> when there is no elbow, and
  \<open>int_of_str\<close> is \<open>int\<close> applied to a string.
\<close>

record 'g library =
  seed_rng :: "int \<Rightarrow> py_error + 'g"
  KMeans_fit :: "'g \<Rightarrow> int \<Rightarrow> real frame \<Rightarrow> (py_error + kmeans) \<times> 'g"
  knee :: "int list \<Rightarrow> real list \<Rightarrow> py_error + int option"
  int_of_str :: "string \<Rightarrow> py_error + int"

subsection \<open>Reconfiguring the raw data\<close>

text \<open>
  \<open>reconfigure_raw_data\<close>: reads \<open>raw_data.columns\<close> (a \<open>Series\<close> has none), drops the first
  two column heads, and reshapes the first remaining column. When no column remains the
  \<open>for\<close> loop never binds \<open>daily_data\<close>.
\<close>

definition reconfigure_raw_data ::
  "ptm \<Rightarrow> pd \<Rightarrow> (py_error + real frame \<times> label list) option" where
  "reconfigure_raw_data self raw_data =
     (case raw_data of
        Series _ \<Rightarrow> Some (Inl AttributeError)
      | DataFrame cols \<Rightarrow>
          (let column_head = map fst cols;
               scenarios = drop 2 column_head
           in if horizon_length self = 0 then Some (Inl ZeroDivisionError)
              else
                (let day_list = [1..int (n_rows cols) div horizon_length self]
                 in case take 1 scenarios of
                      [] \<Rightarrow> Some (Inl UnboundLocalError)
                    | i # _ \<Rightarrow>
                        (case map_of cols i of
                           None \<Rightarrow> Some (Inl KeyError)
                         | Some col \<Rightarrow>
                             map_option (\<lambda>daily_data. Inr (daily_data, scenarios))
                               (generate_daily_data (horizon_length self) col day_list)))))"

subsection \<open>Choosing the number of clusters\<close>

text \<open>The loop over \<open>k_values\<close>: one fit per \<open>k\<close>, appending its inertia.\<close>

fun inertia_sweep ::
  "'g library \<Rightarrow> 'g \<Rightarrow> real frame \<Rightarrow> int list \<Rightarrow> real list \<Rightarrow> (py_error + real list) \<times> 'g" where
  "inertia_sweep lib g daily_data [] inertia_values = (Inr inertia_values, g)"
| "inertia_sweep lib g daily_data (k # ks) inertia_values =
     (case KMeans_fit lib g k daily_data of
        (Inl e, g') \<Rightarrow> (Inl e, g')
      | (Inr km, g') \<Rightarrow> inertia_sweep lib g' daily_data ks (inertia_values @ [inertia km]))"

text \<open>
  \<open>get_optimal_n_clusters\<close>. After the sweep the code evaluates \<open>n_clusters + 2 >= kmax\<close>,
  which for \<open>n_clusters = None\<close> is a \<open>TypeError\<close>. The warnings, the \<open>print\<close> and the plot
  do not change what is returned and are left out.
\<close>

definition get_optimal_n_clusters ::
  "'g library \<Rightarrow> ptm \<Rightarrow> 'g \<Rightarrow> real frame \<Rightarrow> int option \<Rightarrow> int option \<Rightarrow> bool
     \<Rightarrow> (py_error + int option \<times> real list) \<times> 'g" where
  "get_optimal_n_clusters lib self g daily_data kmin kmax plot =
     (let kmin' = (case kmin of None \<Rightarrow> 4 | Some k \<Rightarrow> k);
          kmax' = (case kmax of None \<Rightarrow> 30 | Some k \<Rightarrow> k);
          k_values = [kmin'..kmax' - 1]
      in case seed_rng lib (seed self) of
           Inl e \<Rightarrow> (Inl e, g)
         | Inr g0 \<Rightarrow>
             (case inertia_sweep lib g0 daily_data k_values [] of
                (Inl e, g1) \<Rightarrow> (Inl e, g1)
              | (Inr inertia_values, g1) \<Rightarrow>
                  (case knee lib k_values inertia_values of
                     Inl e \<Rightarrow> (Inl e, g1)
                   | Inr n_clusters \<Rightarrow>
                       (case n_clusters of
                          None \<Rightarrow> (Inl TypeError, g1)
                        | Some n \<Rightarrow> (Inr (Some n, inertia_values), g1)))))"

subsection \<open>Clustering into representative days\<close>

text \<open>
  The clamp of one centroid row, \<open>for t in range(24)\<close>: numpy raises \<open>IndexError\<close> on an
  index past the end of the row.
\<close>

fun clamp_row :: "real list \<Rightarrow> nat list \<Rightarrow> py_error + real list" where
  "clamp_row row [] = Inr row"
| "clamp_row row (t # ts) =
     (if t < length row
      then clamp_row (if row ! t < 1 / 10000 then row[t := 0] else row) ts
      else Inl IndexError)"

text \<open>The outer loop \<open>for d in range(n_clusters)\<close> over the rows of \<open>centroids\<close>.\<close>

fun clamp_centroids :: "real list list \<Rightarrow> nat list \<Rightarrow> py_error + real list list" where
  "clamp_centroids centroids [] = Inr centroids"
| "clamp_centroids centroids (d # ds) =
     (if d < length centroids
      then (case clamp_row (centroids ! d) [0..<24] of
              Inl e \<Rightarrow> Inl e
            | Inr row \<Rightarrow> clamp_centroids (centroids[d := row]) ds)
      else Inl IndexError)"

text \<open>
  The weights: for every label, \<open>for k in n_clusters_list: if labels[j] == k:
  weights_counter[k] += 1\<close>. The counter is a float array of length \<open>n_clusters\<close>, so \<open>k\<close> is
  always in range.
\<close>

fun count_label :: "int \<Rightarrow> real list \<Rightarrow> nat list \<Rightarrow> real list" where
  "count_label l weights_counter [] = weights_counter"
| "count_label l weights_counter (k # ks) =
     count_label l
       (if l = int k then weights_counter[k := weights_counter ! k + 1] else weights_counter) ks"

definition count_weights :: "int list \<Rightarrow> nat \<Rightarrow> real list" where
  "count_weights labels0 n =
     fold (\<lambda>l weights_counter. count_label l weights_counter [0..<n]) labels0 (replicate n 0)"

text \<open>
  A dictionary of dictionaries as \<open>DataFrame.to_dict()\<close> builds it, in insertion order:
  \<open>lmp_data[d][t]\<close> for the cluster \<open>d\<close> in \<open>1, \<dots>, n_clusters\<close> and the row \<open>t\<close> counted from 0,
  and \<open>weights[0][d]\<close>.
\<close>

type_synonym dict2 = "(int \<times> (int \<times> real) list) list"

definition dict2_get :: "dict2 \<Rightarrow> int \<Rightarrow> int \<Rightarrow> py_error + real" where
  "dict2_get dd a b =
     (case map_of dd a of
        None \<Rightarrow> Inl KeyError
      | Some inner \<Rightarrow> (case map_of inner b of None \<Rightarrow> Inl KeyError | Some v \<Rightarrow> Inr v))"

text \<open>
  \<open>cluster_lmp_data\<close> after the fit: the clamp, the weights (\<open>np.zeros\<close> rejects a negative
  length), the frame of the transposed centroids under the columns \<open>1, \<dots>, n_clusters\<close>
  (pandas rejects a centroid matrix with another number of rows) and the two dictionaries.
\<close>

definition cluster_post :: "int \<Rightarrow> kmeans \<Rightarrow> py_error + dict2 \<times> dict2" where
  "cluster_post n_clusters km =
     (case clamp_centroids (cluster_centers km) [0..<nat n_clusters] of
        Inl e \<Rightarrow> Inl e
      | Inr centroids \<Rightarrow>
          if n_clusters < 0 then Inl ValueError
          else
            (let weights_counter = count_weights (labels km) (nat n_clusters)
             in if length centroids \<noteq> nat n_clusters then Inl ValueError
                else
                  Inr (map (\<lambda>d. (int d + 1,
                              map (\<lambda>t. (int t, centroids ! d ! t)) [0..<length (centroids ! d)]))
                         [0..<nat n_clusters],
                       [(0, map (\<lambda>k. (int k + 1, weights_counter ! k))
                              [0..<length weights_counter])])))"

text \<open>
  \<open>cluster_lmp_data\<close>. Its third parameter is overwritten by the result of
  \<open>reconfigure_raw_data\<close>, and the horizon it works with is the attribute of \<open>self\<close>.
  The fit takes the generator as the caller left it: the method never calls
  \<open>np.random.seed\<close>.
\<close>

definition cluster_lmp_data ::
  "'g library \<Rightarrow> ptm \<Rightarrow> 'g \<Rightarrow> pd \<Rightarrow> int \<Rightarrow> int option
     \<Rightarrow> ((py_error + dict2 \<times> dict2) \<times> 'g) option" where
  "cluster_lmp_data lib self g raw_data n_clusters scenarios =
     (case reconfigure_raw_data self raw_data of
        None \<Rightarrow> None
      | Some (Inl e) \<Rightarrow> Some (Inl e, g)
      | Some (Inr (daily_data, scenarios')) \<Rightarrow>
          (case KMeans_fit lib g n_clusters daily_data of
             (Inl e, g') \<Rightarrow> Some (Inl e, g')
           | (Inr km, g') \<Rightarrow> Some (cluster_post n_clusters km, g')))"

subsection \<open>Loading the price parameters\<close>

text \<open>
  The argument \<open>column_name\<close> of \<open>append_lmp_data\<close>: one column label, or a list of labels
  (one column per year). \<open>int(y)\<close> of a label is the label itself when it is an integer.
\<close>

datatype col_sel = Single label | Multi "label list"

definition py_int :: "'g library \<Rightarrow> label \<Rightarrow> py_error + int" where
  "py_int lib l = (case l of LInt i \<Rightarrow> Inr i | LStr s \<Rightarrow> int_of_str lib s)"

text \<open>\<open>[int(y) for y in column_name]\<close>\<close>

fun years_of :: "'g library \<Rightarrow> label list \<Rightarrow> py_error + int list" where
  "years_of lib [] = Inr []"
| "years_of lib (y # ys) =
     (case py_int lib y of
        Inl e \<Rightarrow> Inl e
      | Inr i \<Rightarrow> (case years_of lib ys of Inl e \<Rightarrow> Inl e | Inr js \<Rightarrow> Inr (i # js)))"

text \<open>
  The loops \<open>for d in self.set_days: for t in self.set_time\<close> of the representative-day
  branches; \<open>kl\<close> and \<open>kw\<close> build the keys of \<open>LMP\<close> and \<open>WEIGHTS\<close>. Both assignments stand in
  the inner loop, and a missing key of \<open>lmp_data\<close> or \<open>weights\<close> stops it with a \<open>KeyError\<close>.
\<close>

fun fill_times ::
  "(int \<Rightarrow> key) \<Rightarrow> key \<Rightarrow> dict2 \<Rightarrow> dict2 \<Rightarrow> int \<Rightarrow> int list \<Rightarrow> ptm \<Rightarrow> py_error option \<times> ptm" where
  "fill_times kl kw lmp_data weights d [] self = (None, self)"
| "fill_times kl kw lmp_data weights d (t # ts) self =
     (case dict2_get lmp_data d t of
        Inl e \<Rightarrow> (Some e, self)
      | Inr v \<Rightarrow>
          (let self1 = self\<lparr>LMP := (LMP self)(kl t \<mapsto> v)\<rparr>
           in case dict2_get weights 0 d of
                Inl e \<Rightarrow> (Some e, self1)
              | Inr w \<Rightarrow>
                  fill_times kl kw lmp_data weights d ts
                    (self1\<lparr>WEIGHTS := (WEIGHTS self1)(kw \<mapsto> w)\<rparr>)))"

fun fill_days ::
  "(int \<Rightarrow> int \<Rightarrow> key) \<Rightarrow> (int \<Rightarrow> key) \<Rightarrow> dict2 \<Rightarrow> dict2 \<Rightarrow> int list \<Rightarrow> int list \<Rightarrow> ptm
     \<Rightarrow> py_error option \<times> ptm" where
  "fill_days kl kw lmp_data weights [] hours self = (None, self)"
| "fill_days kl kw lmp_data weights (d # ds) hours self =
     (case fill_times (\<lambda>t. kl t d) (kw d) lmp_data weights d hours self of
        (Some e, self') \<Rightarrow> (Some e, self')
      | (None, self') \<Rightarrow> fill_days kl kw lmp_data weights ds hours self')"

text \<open>
  The loop \<open>for year in column_name\<close> of the branch for several years and representative
  days. \<open>full_data[year]\<close> is one column, a \<open>Series\<close>, and it is what \<open>cluster_lmp_data\<close>
  receives.
\<close>

fun year_loop_rep ::
  "'g library \<Rightarrow> (label \<times> real list) list \<Rightarrow> int \<Rightarrow> int option \<Rightarrow> int list \<Rightarrow> int list
     \<Rightarrow> label list \<Rightarrow> ptm \<Rightarrow> 'g \<Rightarrow> (py_error option \<times> ptm \<times> 'g) option" where
  "year_loop_rep lib full_data n_clusters hl days hours [] self g = Some (None, self, g)"
| "year_loop_rep lib full_data n_clusters hl days hours (year # years) self g =
     (case map_of full_data year of
        None \<Rightarrow> Some (Some KeyError, self, g)
      | Some price_data \<Rightarrow>
          (case cluster_lmp_data lib self g (Series price_data) n_clusters hl of
             None \<Rightarrow> None
           | Some (Inl e, g') \<Rightarrow> Some (Some e, self, g')
           | Some (Inr (lmp_data, weights), g') \<Rightarrow>
               (case py_int lib year of
                  Inl e \<Rightarrow> Some (Some e, self, g')
                | Inr y \<Rightarrow>
                    (case fill_days (\<lambda>t d. K3 t d y) (\<lambda>d. K2 d y) lmp_data weights
                            days hours self of
                       (Some e, self') \<Rightarrow> Some (Some e, self', g')
                     | (None, self') \<Rightarrow>
                         year_loop_rep lib full_data n_clusters hl days hours years
                           self' g'))))"

definition append_multi_rep ::
  "'g library \<Rightarrow> ptm \<Rightarrow> 'g \<Rightarrow> (label \<times> real list) list \<Rightarrow> label list \<Rightarrow> int \<Rightarrow> int option
     \<Rightarrow> (py_error option \<times> ptm \<times> 'g) option" where
  "append_multi_rep lib self g full_data column_name n_clusters hl =
     (case years_of lib column_name of
        Inl e \<Rightarrow> Some (Some e, self, g)
      | Inr ys \<Rightarrow>
          (let self1 = self\<lparr>set_years := Some ys\<rparr>
           in case RangeSet 1 n_clusters of
                Inl e \<Rightarrow> Some (Some e, self1, g)
              | Inr days \<Rightarrow>
                  (let ntp = (case hl of Some h \<Rightarrow> h | None \<Rightarrow> 24);
                       self2 = self1\<lparr>set_days := Some days, n_time_points := Some ntp\<rparr>
                   in case RangeSet 1 ntp of
                        Inl e \<Rightarrow> Some (Some e, self2, g)
                      | Inr hours \<Rightarrow>
                          year_loop_rep lib full_data n_clusters hl days hours column_name
                            (self2\<lparr>set_time := Some hours, LMP := Map.empty,
                                   WEIGHTS := Map.empty\<rparr>) g)))"

text \<open>
  Several years, the full price signal of each: \<open>self.LMP[t, y] = price_data[t - 1]\<close> reads
  the \<open>Series\<close> by its row label.
\<close>

fun fill_full_year :: "int \<Rightarrow> real list \<Rightarrow> int list \<Rightarrow> ptm \<Rightarrow> py_error option \<times> ptm" where
  "fill_full_year y price_data [] self = (None, self)"
| "fill_full_year y price_data (t # ts) self =
     (if 0 \<le> t - 1 \<and> t - 1 < int (length price_data)
      then fill_full_year y price_data ts
             (self\<lparr>LMP := (LMP self)(K2 t y \<mapsto> price_data ! nat (t - 1))\<rparr>)
      else (Some KeyError, self))"

fun year_loop_full ::
  "'g library \<Rightarrow> (label \<times> real list) list \<Rightarrow> int list \<Rightarrow> label list \<Rightarrow> ptm
     \<Rightarrow> py_error option \<times> ptm" where
  "year_loop_full lib full_data hours [] self = (None, self)"
| "year_loop_full lib full_data hours (year # years) self =
     (case map_of full_data year of
        None \<Rightarrow> (Some KeyError, self)
      | Some price_data \<Rightarrow>
          (case py_int lib year of
             Inl e \<Rightarrow> (Some e, self)
           | Inr y \<Rightarrow>
               (case fill_full_year y price_data hours self of
                  (Some e, self') \<Rightarrow> (Some e, self')
                | (None, self') \<Rightarrow> year_loop_full lib full_data hours years self')))"

definition append_multi_full ::
  "'g library \<Rightarrow> ptm \<Rightarrow> (label \<times> real list) list \<Rightarrow> label list \<Rightarrow> py_error option \<times> ptm" where
  "append_multi_full lib self full_data column_name =
     (case years_of lib column_name of
        Inl e \<Rightarrow> (Some e, self)
      | Inr ys \<Rightarrow>
          (let ntp = int (n_rows full_data);
               self1 = self\<lparr>set_years := Some ys, set_days := None, n_time_points := Some ntp\<rparr>
           in case RangeSet 1 ntp of
                Inl e \<Rightarrow> (Some e, self1)
              | Inr hours \<Rightarrow>
                  year_loop_full lib full_data hours column_name
                    (self1\<lparr>set_time := Some hours, LMP := Map.empty\<rparr>)))"

text \<open>
  One price signal and representative days. The hours are \<open>RangeSet(self._n_time_points - 1)\<close>,
  and \<open>cluster_lmp_data\<close> receives the whole table.
\<close>

definition append_single_rep ::
  "'g library \<Rightarrow> ptm \<Rightarrow> 'g \<Rightarrow> (label \<times> real list) list \<Rightarrow> int \<Rightarrow> int option
     \<Rightarrow> (py_error option \<times> ptm \<times> 'g) option" where
  "append_single_rep lib self g full_data n_clusters hl =
     (let self1 = self\<lparr>set_years := None\<rparr>
      in case RangeSet 1 n_clusters of
           Inl e \<Rightarrow> Some (Some e, self1, g)
         | Inr days \<Rightarrow>
             (let ntp = (case hl of Some h \<Rightarrow> h | None \<Rightarrow> 24);
                  self2 = self1\<lparr>set_days := Some days, n_time_points := Some ntp\<rparr>
              in case RangeSet 1 (ntp - 1) of
                   Inl e \<Rightarrow> Some (Some e, self2, g)
                 | Inr hours \<Rightarrow>
                     (let self3 = self2\<lparr>set_time := Some hours, LMP := Map.empty,
                                        WEIGHTS := Map.empty\<rparr>
                      in case cluster_lmp_data lib self3 g (DataFrame full_data) n_clusters hl of
                           None \<Rightarrow> None
                         | Some (Inl e, g') \<Rightarrow> Some (Some e, self3, g')
                         | Some (Inr (lmp_data, weights), g') \<Rightarrow>
                             (case fill_days (\<lambda>t d. K2 t d) (\<lambda>d. K1 d) lmp_data weights
                                     days hours self3 of
                                (err, self4) \<Rightarrow> Some (err, self4, g')))))"

text \<open>
  One price signal, the full year: \<open>{t: price_data[t - 1] for t in self.set_time}\<close> over the
  list of the column, assigned to \<open>self.LMP\<close> once it is complete.
\<close>

fun lmp_of_list :: "real list \<Rightarrow> int list \<Rightarrow> (key \<rightharpoonup> real) \<Rightarrow> py_error + (key \<rightharpoonup> real)" where
  "lmp_of_list price_data [] acc = Inr acc"
| "lmp_of_list price_data (t # ts) acc =
     (case py_nth price_data (t - 1) of
        Inl e \<Rightarrow> Inl e
      | Inr v \<Rightarrow> lmp_of_list price_data ts (acc(K1 t \<mapsto> v)))"

definition append_single_full ::
  "ptm \<Rightarrow> (label \<times> real list) list \<Rightarrow> label \<Rightarrow> py_error option \<times> ptm" where
  "append_single_full self full_data column_name =
     (let ntp = int (n_rows full_data);
          self1 = self\<lparr>set_years := None, set_days := None, n_time_points := Some ntp\<rparr>
      in case RangeSet 1 ntp of
           Inl e \<Rightarrow> (Some e, self1)
         | Inr hours \<Rightarrow>
             (let self2 = self1\<lparr>set_time := Some hours\<rparr>
              in case map_of full_data column_name of
                   None \<Rightarrow> (Some KeyError, self2)
                 | Some price_data \<Rightarrow>
                     (case lmp_of_list price_data hours Map.empty of
                        Inl e \<Rightarrow> (Some e, self2)
                      | Inr lmp \<Rightarrow> (None, self2\<lparr>LMP := lmp\<rparr>))))"

text \<open>
  \<open>append_lmp_data\<close>, after the sheet has been read into \<open>full_data\<close>: the four branches on
  \<open>isinstance(column_name, list)\<close> and \<open>n_clusters is not None\<close>. The result is \<open>None\<close> when
  the call does not return; otherwise it holds the exception raised (if any), the
  attributes of the model as the call left them, and the state of the generator.
\<close>

definition append_lmp_data ::
  "'g library \<Rightarrow> ptm \<Rightarrow> 'g \<Rightarrow> (label \<times> real list) list \<Rightarrow> col_sel \<Rightarrow> int option \<Rightarrow> int option
     \<Rightarrow> (py_error option \<times> ptm \<times> 'g) option" where
  "append_lmp_data lib self g full_data column_name n_clusters hl =
     (case column_name of
        Multi ys \<Rightarrow>
          (case n_clusters of
             Some n \<Rightarrow> append_multi_rep lib self g full_data ys n hl
           | None \<Rightarrow>
               (case append_multi_full lib self full_data ys of
                  (err, self') \<Rightarrow> Some (err, self', g)))
      | Single c \<Rightarrow>
          (case n_clusters of
             Some n \<Rightarrow> append_single_rep lib self g full_data n hl
           | None \<Rightarrow>
               (case append_single_full self full_data c of
                  (err, self') \<Rightarrow> Some (err, self', g))))"

subsection \<open>Operating mode and start-up of a period\<close>

text \<open>
  The sums \<open>op_mode += blk.op_mode\<close> and \<open>startup += blk.startup\<close> over the operation models
  among the sub-blocks of one period, both starting from 0.
\<close>

fun aggregate :: "blk list \<Rightarrow> expr \<Rightarrow> expr \<Rightarrow> expr \<times> expr" where
  "aggregate [] om su = (om, su)"
| "aggregate (b # bs) om su =
     (case b of
        OperationModelData bo bs' \<Rightarrow> aggregate bs (Add om bo) (Add su bs')
      | DesignModelData _ _ \<Rightarrow> aggregate bs om su
      | OtherBlock \<Rightarrow> aggregate bs om su)"

text \<open>
  The loop \<open>for p in period\<close> that assigns \<open>period[p].op_mode = Expression(expr = op_mode)\<close>
  and \<open>period[p].startup = Expression(expr = startup)\<close>: two new \<open>Expression\<close> objects per
  period, whatever the period held under these names before.
\<close>

fun define_modes :: "(int list \<times> period_blk) list \<Rightarrow> nat \<Rightarrow> (int list \<times> period_blk) list \<times> nat" where
  "define_modes [] i = ([], i)"
| "define_modes ((p, b) # ps) i =
     (let (om, su) = aggregate (sub_blocks b) (Num 0) (Num 0);
          b' = b\<lparr>op_mode := Some (ExprObj i om), startup := Some (ExprObj (i + 1) su)\<rparr>;
          (ps', i') = define_modes ps (i + 2)
      in ((p, b') # ps', i'))"

definition bind_err :: "py_error + 'a \<Rightarrow> ('a \<Rightarrow> py_error + 'b) \<Rightarrow> py_error + 'b" where
  "bind_err x f = (case x of Inl e \<Rightarrow> Inl e | Inr a \<Rightarrow> f a)"

text \<open>\<open>period[range_time_periods[t]].attr\<close>\<close>

definition period_attr ::
  "(int list \<times> period_blk) list \<Rightarrow> int list list \<Rightarrow> int \<Rightarrow> (period_blk \<Rightarrow> expr option)
     \<Rightarrow> py_error + expr" where
  "period_attr prd rtp t attr =
     bind_err (py_nth rtp t) (\<lambda>p.
       case map_of prd p of
         None \<Rightarrow> Inl KeyError
       | Some b \<Rightarrow> (case attr b of None \<Rightarrow> Inl AttributeError | Some e \<Rightarrow> Inr e))"

text \<open>\<open>Constraint(index_set, rule = rule)\<close>: the rule is called on every index in turn.\<close>

fun build_constraint :: "(int \<Rightarrow> py_error + con) \<Rightarrow> int list \<Rightarrow> py_error + (int \<times> con) list" where
  "build_constraint rule [] = Inr []"
| "build_constraint rule (t # ts) =
     bind_err (rule t) (\<lambda>c. bind_err (build_constraint rule ts) (\<lambda>cs. Inr ((t, c) # cs)))"

subsection \<open>Ramping constraints\<close>

definition ramp_up_con_rule ::
  "(int list \<times> period_blk) list \<Rightarrow> int list list \<Rightarrow> real \<Rightarrow> real \<Rightarrow> real \<Rightarrow> int
     \<Rightarrow> py_error + con" where
  "ramp_up_con_rule prd rtp startup_limit minimum_opt_limit ramp_up_limit t =
     bind_err (period_attr prd rtp t opt_power) (\<lambda>p1.
     bind_err (period_attr prd rtp (t - 1) opt_power) (\<lambda>p0.
     bind_err (period_attr prd rtp t startup) (\<lambda>s1.
     bind_err (period_attr prd rtp (t - 1) startup) (\<lambda>s0.
     bind_err (period_attr prd rtp t op_mode) (\<lambda>o1.
     bind_err (period_attr prd rtp t op_mode) (\<lambda>o1'.
     bind_err (period_attr prd rtp (t - 1) op_mode) (\<lambda>o0.
       Inr (Le (Sub p1 p0)
               (Add (Add (Sub (Mul (Num startup_limit) s1) (Mul (Num minimum_opt_limit) s0))
                         (Mul (Num ramp_up_limit) o1))
                    (Mul (Num minimum_opt_limit) (Sub o1' o0)))))))))))"

definition ramp_down_con_rule ::
  "(int list \<times> period_blk) list \<Rightarrow> int list list \<Rightarrow> real \<Rightarrow> real \<Rightarrow> real \<Rightarrow> int
     \<Rightarrow> py_error + con" where
  "ramp_down_con_rule prd rtp shutdown_limit minimum_opt_limit ramp_down_limit t =
     bind_err (period_attr prd rtp (t - 1) opt_power) (\<lambda>p0.
     bind_err (period_attr prd rtp t opt_power) (\<lambda>p1.
     bind_err (period_attr prd rtp (t - 1) startup) (\<lambda>s0.
     bind_err (period_attr prd rtp (t - 1) op_mode) (\<lambda>o0.
     bind_err (period_attr prd rtp t op_mode) (\<lambda>o1.
     bind_err (period_attr prd rtp t startup) (\<lambda>s1.
     bind_err (period_attr prd rtp t op_mode) (\<lambda>o1'.
       Inr (Le (Sub p0 p1)
               (Add (Sub (Mul (Num shutdown_limit) (Sub (Add s0 o0) o1))
                         (Mul (Num minimum_opt_limit) s1))
                    (Mul (Num ramp_down_limit) o1'))))))))))"

text \<open>
  \<open>add_ramping_constraints\<close>. The expressions \<open>op_mode\<close> and \<open>startup\<close> of the periods are
  built, and \<open>range_time_periods\<close> is filled, only when \<open>period[1, 1]\<close> has no component
  \<open>op_mode\<close>; otherwise the list stays empty. The state of a constraint whose rule raised
  is not modelled: the attribute keeps its former value.
\<close>

definition add_ramping_constraints ::
  "real \<Rightarrow> real \<Rightarrow> real \<Rightarrow> real \<Rightarrow> real \<Rightarrow> ptm \<Rightarrow> py_error option \<times> ptm" where
  "add_ramping_constraints startup_limit shutdown_limit ramp_up_limit ramp_down_limit
       minimum_opt_limit self =
     (case mp_model self of
        None \<Rightarrow> (Some AttributeError, self)
      | Some m \<Rightarrow>
          (case RangeSet 2 (int (length (period m)) - 1) of
             Inl e \<Rightarrow> (Some e, self)
           | Inr rng \<Rightarrow>
               (let self1 = self\<lparr>ramp_up_down_range := Some rng\<rparr>
                in case map_of (period m) [1, 1] of
                     None \<Rightarrow> (Some KeyError, self1)
                   | Some p11 \<Rightarrow>
                       (let fresh = (op_mode p11 = None);
                            (prd, i) = (if fresh then define_modes (period m) (next_id self1)
                                        else (period m, next_id self1));
                            range_time_periods = (if fresh then map fst (period m) else []);
                            m1 = m\<lparr>period := prd\<rparr>;
                            self2 = self1\<lparr>mp_model := Some m1, next_id := i\<rparr>
                        in case build_constraint
                                  (ramp_up_con_rule prd range_time_periods startup_limit
                                     minimum_opt_limit ramp_up_limit) rng of
                             Inl e \<Rightarrow> (Some e, self2)
                           | Inr up \<Rightarrow>
                               (let m2 = m1\<lparr>ramp_up_con := Some up\<rparr>
                                in case build_constraint
                                          (ramp_down_con_rule prd range_time_periods
                                             shutdown_limit minimum_opt_limit ramp_down_limit)
                                          rng of
                                     Inl e \<Rightarrow> (Some e, self2\<lparr>mp_model := Some m2\<rparr>)
                                   | Inr down \<Rightarrow>
                                       (None,
                                        self2\<lparr>mp_model :=
                                                 Some (m2\<lparr>ramp_down_con := Some down\<rparr>)\<rparr>))))))"

subsection \<open>Start-up and shut-down constraints\<close>

text \<open>Python's \<open>sum\<close> of \<open>period[range_time_periods[i]].startup\<close> over a range of \<open>i\<close>.\<close>

fun sum_startup ::
  "(int list \<times> period_blk) list \<Rightarrow> int list list \<Rightarrow> int list \<Rightarrow> expr \<Rightarrow> py_error + expr" where
  "sum_startup prd rtp [] acc = Inr acc"
| "sum_startup prd rtp (i # js) acc =
     bind_err (period_attr prd rtp i startup) (\<lambda>s. sum_startup prd rtp js (Add acc s))"

definition startup_con1_rule ::
  "(int list \<times> period_blk) list \<Rightarrow> int list list \<Rightarrow> int \<Rightarrow> int \<Rightarrow> py_error + con" where
  "startup_con1_rule prd rtp UT t =
     bind_err (sum_startup prd rtp [t - UT + 1..t - 1] (Num 0)) (\<lambda>s.
     bind_err (period_attr prd rtp t op_mode) (\<lambda>o1. Inr (Le s o1)))"

definition stutdown_con1_rule ::
  "(int list \<times> period_blk) list \<Rightarrow> int list list \<Rightarrow> int \<Rightarrow> int \<Rightarrow> py_error + con" where
  "stutdown_con1_rule prd rtp DT t =
     bind_err (sum_startup prd rtp [t - DT..t] (Num 0)) (\<lambda>s.
     bind_err (period_attr prd rtp (t - DT) op_mode) (\<lambda>o0. Inr (Le s (Sub (Num 1) o0))))"

text \<open>
  \<open>add_startup_shutdown\<close>. Its loop over the periods stands under no condition: every call
  builds the expressions \<open>op_mode\<close> and \<open>startup\<close> of every period anew.
\<close>

definition add_startup_shutdown :: "int \<Rightarrow> int \<Rightarrow> ptm \<Rightarrow> py_error option \<times> ptm" where
  "add_startup_shutdown UT DT self =
     (case mp_model self of
        None \<Rightarrow> (Some AttributeError, self)
      | Some m \<Rightarrow>
          (case RangeSet UT (int (length (period m)) - 1) of
             Inl e \<Rightarrow> (Some e, self)
           | Inr su \<Rightarrow>
               (let self1 = self\<lparr>range_time_periods_SU := Some su\<rparr>
                in case RangeSet DT (int (length (period m)) - 1) of
                     Inl e \<Rightarrow> (Some e, self1)
                   | Inr sd \<Rightarrow>
                       (let (prd, i) = define_modes (period m) (next_id self1);
                            range_time_periods = map fst (period m);
                            m1 = m\<lparr>period := prd\<rparr>;
                            self2 = self1\<lparr>range_time_periods_SD := Some sd,
                                          mp_model := Some m1, next_id := i\<rparr>
                        in case build_constraint (startup_con1_rule prd range_time_periods UT) su of
                             Inl e \<Rightarrow> (Some e, self2)
                           | Inr c1 \<Rightarrow>
                               (let m2 = m1\<lparr>startup_con1 := Some c1\<rparr>
                                in case build_constraint
                                          (stutdown_con1_rule prd range_time_periods DT) sd of
                                     Inl e \<Rightarrow> (Some e, self2\<lparr>mp_model := Some m2\<rparr>)
                                   | Inr c2 \<Rightarrow>
                                       (None,
                                        self2\<lparr>mp_model :=
                                                 Some (m2\<lparr>stutdown_con1 := Some c2\<rparr>)\<rparr>))))))"

subsection \<open>Cash flows and the objective\<close>

text \<open>\<open>capex_expr += blk.capex\<close> and \<open>fom_expr += blk.fom\<close> over the design models.\<close>

fun design_sums :: "blk list \<Rightarrow> expr \<Rightarrow> expr \<Rightarrow> expr \<times> expr" where
  "design_sums [] capex_expr fom_expr = (capex_expr, fom_expr)"
| "design_sums (b # bs) capex_expr fom_expr =
     (case b of
        DesignModelData c f \<Rightarrow> design_sums bs (Add capex_expr c) (Add fom_expr f)
      | OperationModelData _ _ \<Rightarrow> design_sums bs capex_expr fom_expr
      | OtherBlock \<Rightarrow> design_sums bs capex_expr fom_expr)"

text \<open>\<open>sum(self.mp_model.period[p].net_cash_inflow for p in self.mp_model.period)\<close>\<close>

fun sum_net_cash :: "(int list \<times> period_blk) list \<Rightarrow> expr \<Rightarrow> py_error + expr" where
  "sum_net_cash [] acc = Inr acc"
| "sum_net_cash ((p, b) # ps) acc =
     (case net_cash_inflow b of
        None \<Rightarrow> Inl AttributeError
      | Some e \<Rightarrow> sum_net_cash ps (Add acc e))"

text \<open>
  \<open>build_cashflows\<close>. A variable of the model is referred to by its name. Dividing by a
  \<open>lifetime\<close> or a \<open>discount_rate\<close> of 0, raising 0 to a negative power and dividing by a
  \<open>constant_cf_factor\<close> of 0 raise \<open>ZeroDivisionError\<close>. The chain
  \<open>if \<dots> elif \<dots> elif \<dots>\<close> on \<open>objective\<close> has no \<open>else\<close>.
\<close>

definition build_cashflows ::
  "int \<Rightarrow> real \<Rightarrow> real \<Rightarrow> real \<Rightarrow> real \<Rightarrow> string \<Rightarrow> ptm \<Rightarrow> py_error option \<times> ptm" where
  "build_cashflows lifetime discount_rate corp_tax other_costs other_revenue objective self =
     (let (capex_expr, fom_expr) = design_sums (blocks self) (Num 0) (Num 0);
          c1 = (components self)
                 (''CAPEX'' \<mapsto> VarC NonNegativeReals,
                  ''capex_calculation'' \<mapsto> ConstraintC (Eq (Var ''CAPEX'') capex_expr),
                  ''FOM'' \<mapsto> VarC NonNegativeReals,
                  ''fom_calculation'' \<mapsto> ConstraintC (Eq (Var ''FOM'') fom_expr),
                  ''DEPRECIATION'' \<mapsto> VarC NonNegativeReals)
      in if lifetime = 0 then (Some ZeroDivisionError, self\<lparr>components := c1\<rparr>)
         else
           (let c2 = c1(''dep_calculation'' \<mapsto>
                          ConstraintC (Eq (Var ''DEPRECIATION'')
                                          (Div (Var ''CAPEX'') (Num (of_int lifetime)))),
                        ''NET_CASH_INFLOW'' \<mapsto> VarC AnyReals)
            in case mp_model self of
                 None \<Rightarrow> (Some AttributeError, self\<lparr>components := c2\<rparr>)
               | Some m \<Rightarrow>
                   (case sum_net_cash (period m) (Num 0) of
                      Inl e \<Rightarrow> (Some e, self\<lparr>components := c2\<rparr>)
                    | Inr cash \<Rightarrow>
                        (let income = Sub (Sub (Add (Var ''NET_CASH_INFLOW'') (Num other_revenue))
                                               (Num other_costs))
                                          (Var ''FOM'');
                             c3 = c2(''net_cash_inflow_calculation'' \<mapsto>
                                       ConstraintC (Eq (Var ''NET_CASH_INFLOW'') cash),
                                     ''CORP_TAX'' \<mapsto> VarC NonNegativeReals,
                                     ''corp_tax_calculation'' \<mapsto>
                                       ConstraintC (Ge (Var ''CORP_TAX'')
                                         (Mul (Num corp_tax) (Sub income (Var ''DEPRECIATION'')))),
                                     ''NET_PROFIT'' \<mapsto> VarC AnyReals,
                                     ''net_profit_calculation'' \<mapsto>
                                       ConstraintC (Eq (Var ''NET_PROFIT'')
                                         (Sub income (Var ''CORP_TAX''))))
                         in if (1 + discount_rate = 0 \<and> 0 < lifetime) \<or> discount_rate = 0
                            then (Some ZeroDivisionError, self\<lparr>components := c3\<rparr>)
                            else
                              (let constant_cf_factor =
                                     (1 - power_int (1 + discount_rate) (- lifetime))
                                       / discount_rate;
                                   i = next_id self;
                                   npv = Sub (Mul (Num constant_cf_factor) (Var ''NET_PROFIT''))
                                             (Var ''CAPEX'');
                                   c4 = c3(''NPV'' \<mapsto> ExpressionC i npv)
                               in if constant_cf_factor = 0
                                  then (Some ZeroDivisionError,
                                        self\<lparr>components := c4, next_id := i + 1\<rparr>)
                                  else
                                    (let annualized =
                                           Sub (Var ''NET_PROFIT'')
                                               (Mul (Num (1 / constant_cf_factor)) (Var ''CAPEX''));
                                         c5 = c4(''Annualized_NPV'' \<mapsto>
                                                   ExpressionC (i + 1) annualized);
                                         self5 = self\<lparr>components := c5, next_id := i + 2\<rparr>
                                     in if objective = ''NPV''
                                        then (None, self5\<lparr>components :=
                                                c5(''obj'' \<mapsto> ObjectiveC (ExprObj i npv) maximize)\<rparr>)
                                        else if objective = ''Annualized NPV''
                                        then (None, self5\<lparr>components :=
                                                c5(''obj'' \<mapsto>
                                                  ObjectiveC (ExprObj (i + 1) annualized) maximize)\<rparr>)
                                        else if objective = ''Net Profit''
                                        then (None, self5\<lparr>components :=
                                                c5(''obj'' \<mapsto>
                                                  ObjectiveC (Var ''NET_PROFIT'') maximize)\<rparr>)
                                        else (None, self5)))))))"

text \<open>The objectives among the components of a model, by name.\<close>

definition objectives :: "ptm \<Rightarrow> string set" where
  "objectives self = {n. \<exists>e s. components self n = Some (ObjectiveC e s)}"

subsection \<open>Reference functions and a concrete run\<close>

text \<open>The clamp of one centroid entry, and of the first 24 entries of a row.\<close>

definition clamp1 :: "real \<Rightarrow> real" where
  "clamp1 x = (if x < 1 / 10000 then 0 else x)"

definition clamp24 :: "real list \<Rightarrow> real list" where
  "clamp24 row = map clamp1 (take 24 row) @ drop 24 row"

text \<open>
  A sheet of three days of 24 hourly prices (10, 20 and 30 all day), with the date and hour
  columns first and the same prices under the year 2021.
\<close>

definition demo_prices :: "real list" where
  "demo_prices = replicate 24 10 @ replicate 24 20 @ replicate 24 30"

definition demo_sheet :: "(label \<times> real list) list" where
  "demo_sheet =
     [(LStr ''Date'', replicate 72 0), (LStr ''Hour'', replicate 72 0),
      (LStr ''price'', demo_prices), (LInt 2021, demo_prices)]"

text \<open>
  A stand-in for the libraries. The generator state is a counter that every fit advances.
  The fit takes the first \<open>k\<close> days as centres and numbers the clusters from the state it
  finds, as a randomly initialised k-means does. The knee detector finds no elbow.
\<close>

definition demo_fit :: "nat \<Rightarrow> int \<Rightarrow> real frame \<Rightarrow> (py_error + kmeans) \<times> nat" where
  "demo_fit g k daily_data =
     (if k \<le> 0 \<or> int (length daily_data) < k then (Inl ValueError, g)
      else (Inr \<lparr>cluster_centers =
                   rotate g (map (\<lambda>(d, col). case col of None \<Rightarrow> [] | Some v \<Rightarrow> v)
                               (take (nat k) daily_data)),
                 labels = map (\<lambda>j. int ((j + g) mod nat k)) [0..<length daily_data],
                 inertia = 0\<rparr>, Suc g))"

definition demo_lib :: "nat library" where
  "demo_lib =
     \<lparr>seed_rng = (\<lambda>s. if s < 0 then Inl ValueError else Inr (nat s)),
      KMeans_fit = demo_fit,
      knee = (\<lambda>ks vs. Inr None),
      int_of_str = (\<lambda>s. Inl ValueError)\<rparr>"

definition demo_model :: ptm where
  "demo_model =
     \<lparr>seed = 20, horizon_length = 24, set_years = None, set_days = None,
      n_time_points = None, set_time = None, LMP = Map.empty, WEIGHTS = Map.empty,
      mp_model = None, blocks = [], ramp_up_down_range = None,
      range_time_periods_SU = None, range_time_periods_SD = None,
      components = Map.empty, next_id = 0\<rparr>"

text \<open>The daily table of the sheet, and the dictionary of two constant price profiles.\<close>

definition demo_daily :: "real frame" where
  "demo_daily = [(1, Some (replicate 24 10)), (2, Some (replicate 24 20)),
                 (3, Some (replicate 24 30))]"

definition demo_lmp :: "real \<Rightarrow> real \<Rightarrow> dict2" where
  "demo_lmp a b = [(1, map (\<lambda>t. (int t, a)) [0..<24]), (2, map (\<lambda>t. (int t, b)) [0..<24])]"

text \<open>
  The number of rows of the daily table, \<open>len(daily_data)\<close>: the length of its first column.
  The fit on \<open>daily_data.transpose()\<close> has one sample per column and one feature per row,
  so this is the number of entries of every cluster centre.
\<close>

definition frame_rows :: "'a frame \<Rightarrow> nat" where
  "frame_rows df = (case df of [] \<Rightarrow> 0 | c # _ \<Rightarrow> (case snd c of None \<Rightarrow> 0 | Some v \<Rightarrow> length v))"

text \<open>A sheet that holds the given prices in its only price column.\<close>

definition demo_day_sheet :: "real list \<Rightarrow> (label \<times> real list) list" where
  "demo_day_sheet prices =
     [(LStr ''Date'', map (\<lambda>p. 0) prices), (LStr ''Hour'', map (\<lambda>p. 0) prices),
      (LStr ''price'', prices)]"

text \<open>
  A multi-period model of three periods, each with one operation model, and a design model
  on the price-taker model.
\<close>

definition demo_period :: "string \<Rightarrow> period_blk" where
  "demo_period x =
     \<lparr>sub_blocks = [OperationModelData (Var (x @ ''.op_mode'')) (Var (x @ ''.startup''))],
      opt_power = Some (Var (x @ ''.power'')),
      op_mode = None, startup = None,
      net_cash_inflow = Some (Var (x @ ''.cash''))\<rparr>"

definition demo_mp :: mp where
  "demo_mp =
     \<lparr>period = [([1, 1], demo_period ''p1''), ([2, 1], demo_period ''p2''),
                ([3, 1], demo_period ''p3'')],
      ramp_up_con = None, ramp_down_con = None, startup_con1 = None, stutdown_con1 = None\<rparr>"

definition demo_plant :: ptm where
  "demo_plant =
     demo_model\<lparr>mp_model := Some demo_mp,
                blocks := [DesignModelData (Var ''capex'') (Var ''fom'')]\<rparr>"

text \<open>The same with a fourth period.\<close>

definition demo_mp4 :: mp where
  "demo_mp4 = demo_mp\<lparr>period := period demo_mp @ [([4, 1], demo_period ''p4'')]\<rparr>"

definition demo_plant4 :: ptm where
  "demo_plant4 = demo_plant\<lparr>mp_model := Some demo_mp4\<rparr>"

text \<open>A period of that model once its two expressions are built, as the objects \<open>i\<close> and \<open>i + 1\<close>.\<close>

definition demo_defined :: "string \<Rightarrow> nat \<Rightarrow> period_blk" where
  "demo_defined x i =
     (demo_period x)\<lparr>op_mode := Some (ExprObj i (Add (Num 0) (Var (x @ ''.op_mode'')))),
                      startup := Some (ExprObj (i + 1) (Add (Num 0) (Var (x @ ''.startup''))))\<rparr>"

section \<open>Properties\<close>

subsection \<open>Daily reshaping\<close>

lemma py_slice_window:
  assumes "0 < h" "1 \<le> d" "d * h \<le> int (length raw)"
  shows "py_slice raw ((d - 1) * h) (d * h) = window h raw d"
proof -
  have a: "0 \<le> (d - 1) * h" using assms by simp
  have e: "d * h = (d - 1) * h + h" by (simp add: left_diff_distrib)
  have d: "nat (d * h) = nat ((d - 1) * h) + nat h"
    using a assms(1) by (subst e) (simp add: nat_add_distrib)
  have c: "nat (d * h) \<le> length raw" using assms by linarith
  have b: "\<not> d * h < 0" "\<not> (d - 1) * h < 0" using a e assms(1) by linarith+
  show ?thesis
    unfolding py_slice_def py_index_def window_def Let_def using b c d
    by (simp add: min_def)
qed

lemma le_div_iff:
  assumes "0 < h"
  shows "(d * h \<le> (L::int)) = (d \<le> L div h)"
proof
  assume "d * h \<le> L"
  then have "(d * h) div h \<le> L div h" using assms by (rule zdiv_mono1)
  then show "d \<le> L div h" using assms by simp
next
  assume a: "d \<le> L div h"
  have "d * h \<le> (L div h) * h" using a assms by (simp add: mult_right_mono)
  moreover have "0 \<le> L mod h" using assms by simp
  moreover have "L = (L div h) * h + L mod h" by simp
  ultimately show "d * h \<le> L" by linarith
qed

text \<open>With a positive horizon the loop ends, having assigned the days \<open>1, \<dots>, L div h\<close> in turn.\<close>

lemma daily_loop_closed:
  assumes "0 < h" "1 \<le> day"
  shows "daily_loop h raw ((day - 1) * h) (day * h) day df =
         Some (fold (\<lambda>d df. setitem df d (window h raw d)) [day..int (length raw) div h] df)"
  using assms(2)
proof (induction "nat (int (length raw) div h + 1 - day)" arbitrary: day df)
  case 0
  then have "\<not> day \<le> int (length raw) div h" by simp
  then have "\<not> day * h \<le> int (length raw)" using le_div_iff [OF assms(1)] by simp
  then show ?case using 0 by (subst daily_loop.simps) (simp add: upto.simps)
next
  case (Suc n)
  then have le: "day \<le> int (length raw) div h" by simp
  then have le': "day * h \<le> int (length raw)" using le_div_iff [OF assms(1)] by simp
  have n: "n = nat (int (length raw) div h + 1 - (day + 1))" using Suc(2) by simp
  have step: "daily_loop h raw (((day + 1) - 1) * h) ((day + 1) * h) (day + 1) df' =
         Some (fold (\<lambda>d df. setitem df d (window h raw d)) [day + 1..int (length raw) div h] df')"
    for df'
    using Suc(1) [OF n] Suc(3) by simp
  have up: "[day..int (length raw) div h] = day # [day + 1..int (length raw) div h]"
    using le by (simp add: upto.simps)
  show ?case
    apply (subst daily_loop.simps)
    using le' step py_slice_window [OF assms(1) Suc(3) le'] up
    by (simp add: distrib_right)
qed

lemma generate_daily_data_closed:
  assumes "0 < h"
  shows "generate_daily_data h raw day_list =
         Some (fold (\<lambda>d df. setitem df d (window h raw d)) [1..int (length raw) div h]
                 (DataFrame_columns day_list))"
  using daily_loop_closed [OF assms, of 1 raw] by (simp add: generate_daily_data_def)

lemma setitem_map:
  "c \<in> set ks \<Longrightarrow>
   setitem (map (\<lambda>d. (d, f d)) ks) c v = map (\<lambda>d. (d, if d = c then Some v else f d)) ks"
  by (auto simp: setitem_def comp_def)

lemma fold_setitem_map:
  "set ds \<subseteq> set ks \<Longrightarrow>
   fold (\<lambda>d df. setitem df d (g d)) ds (map (\<lambda>d. (d, f d)) ks) =
   map (\<lambda>d. (d, if d \<in> set ds then Some (g d) else f d)) ks"
proof (induction ds arbitrary: f)
  case Nil
  then show ?case by simp
next
  case (Cons a ds)
  then have a: "a \<in> set ks" and ds: "set ds \<subseteq> set ks" by auto
  show ?case
    by (simp add: setitem_map [OF a] Cons.IH [OF ds])
qed

lemma map_of_upd_col:
  "map_of (map (\<lambda>(k, x). if k = c then (k, Some v) else (k, x)) df) k =
     (if k = c \<and> k \<in> fst ` set df then Some (Some v) else map_of df k)"
  by (induction df) force+

lemma map_of_setitem:
  "map_of (setitem df c v) = (map_of df)(c \<mapsto> Some v)"
proof (cases "c \<in> set (map fst df)")
  case True
  then show ?thesis by (auto simp: setitem_def map_of_upd_col fun_eq_iff)
next
  case False
  then have "map_of df c = None" by (simp add: map_of_eq_None_iff)
  then show ?thesis using False
    by (auto simp: setitem_def map_add_def fun_eq_iff split: option.splits)
qed

lemma map_of_fold_setitem:
  "map_of (fold (\<lambda>d df. setitem df d (g d)) ds df) d =
     (if d \<in> set ds then Some (Some (g d)) else map_of df d)"
  by (induction ds arbitrary: df) (auto simp: map_of_setitem)

lemma window_bound:
  assumes "0 < h" "1 \<le> d" "d * h \<le> int (length raw)"
  shows "nat ((d - 1) * h) + nat h \<le> length raw"
proof -
  have e: "d * h = (d - 1) * h + h" by (simp add: left_diff_distrib)
  have a: "0 \<le> (d - 1) * h" using assms by simp
  show ?thesis using assms(1,3) a e by linarith
qed

lemma length_window:
  assumes "0 < h" "1 \<le> d" "d * h \<le> int (length raw)"
  shows "length (window h raw d) = nat h"
  using window_bound [OF assms] by (simp add: window_def)

lemma nth_window:
  assumes "0 < h" "1 \<le> d" "d * h \<le> int (length raw)" "k < nat h"
  shows "window h raw d ! k = raw ! (nat ((d - 1) * h) + k)"
  using window_bound [OF assms(1-3)] assms(4) by (simp add: window_def)

lemma generate_daily_data_day_list:
  assumes "0 < h"
  shows "generate_daily_data h raw [1..int (length raw) div h] =
           Some (map (\<lambda>d. (d, Some (window h raw d))) [1..int (length raw) div h])"
  unfolding generate_daily_data_closed [OF assms] DataFrame_columns_def
  by (subst fold_setitem_map) auto

text \<open>
  Claim C1. For a horizon \<open>h > 0\<close> and a raw series of length \<open>L\<close>, \<open>generate_daily_data\<close>
  returns, and the columns of its table that hold values are exactly the days
  \<open>1, \<dots>, L div h\<close>; column \<open>d\<close> holds the \<open>h\<close> samples \<open>(d-1)*h, \<dots>, d*h - 1\<close> of the series in
  their order, so the samples after \<open>(L div h) * h\<close> are dropped. With the \<open>day_list\<close> that
  \<open>reconfigure_raw_data\<close> passes, these are all the columns of the table, in the order
  of the days.
\<close>

theorem generate_daily_data_complete_days:
  assumes "0 < h"
  shows "\<exists>daily_data. generate_daily_data h raw day_list = Some daily_data
           \<and> {d. \<exists>col. map_of daily_data d = Some (Some col)} = {1..int (length raw) div h}
           \<and> (\<forall>d\<in>{1..int (length raw) div h}.
                 map_of daily_data d = Some (Some (window h raw d))
               \<and> length (window h raw d) = nat h
               \<and> (\<forall>k<nat h. window h raw d ! k = raw ! (nat ((d - 1) * h) + k)))
           \<and> (day_list = [1..int (length raw) div h] \<longrightarrow>
                 daily_data = map (\<lambda>d. (d, Some (window h raw d))) [1..int (length raw) div h])"
proof -
  let ?D = "int (length raw) div h"
  let ?df = "fold (\<lambda>d df. setitem df d (window h raw d)) [1..?D] (DataFrame_columns day_list)"
  have 1: "generate_daily_data h raw day_list = Some ?df"
    by (rule generate_daily_data_closed [OF assms])
  have none: "map_of (DataFrame_columns day_list :: 'a frame) d \<noteq> Some (Some col)" for d col
    by (auto simp: DataFrame_columns_def dest!: map_of_SomeD)
  have 2: "{d. \<exists>col. map_of ?df d = Some (Some col)} = {1..?D}"
    using none by (auto simp: map_of_fold_setitem)
  have 3: "map_of ?df d = Some (Some (window h raw d))" if "d \<in> {1..?D}" for d
    using that by (simp add: map_of_fold_setitem)
  have 4: "length (window h raw d) = nat h
       \<and> (\<forall>k<nat h. window h raw d ! k = raw ! (nat ((d - 1) * h) + k))" if "d \<in> {1..?D}" for d
  proof -
    have "1 \<le> d" "d * h \<le> int (length raw)" using that le_div_iff [OF assms] by auto
    then show ?thesis using length_window [OF assms] nth_window [OF assms] by blast
  qed
  have 5: "?df = map (\<lambda>d. (d, Some (window h raw d))) [1..?D]" if "day_list = [1..?D]"
    unfolding that DataFrame_columns_def
    by (subst fold_setitem_map) auto
  show ?thesis using 1 2 3 4 5 by blast
qed

theorem generate_daily_data_complete_days_witness:
  "(0::int) < 2 \<and>
   generate_daily_data 2 [10, 20, 30, 40, 50 :: int] [1, 2] =
     Some [(1, Some [10, 20]), (2, Some [30, 40])]"
proof -
  have u: "[1..int (length [10, 20, 30, 40, 50 :: int]) div 2] = [1, 2]"
    by (simp add: upto.simps)
  show ?thesis
    using generate_daily_data_complete_days [of 2 "[10, 20, 30, 40, 50 :: int]" "[1, 2]"]
    unfolding u
    by (auto simp add: window_def)
qed

subsection \<open>The daily table of a sheet\<close>

text \<open>
  The loop returns only for a horizon that is not negative, so \<open>reconfigure_raw_data\<close>
  returns a table only for a positive horizon, and every column of the table that holds
  values holds as many as the horizon.
\<close>

lemma daily_loop_returns:
  assumes "daily_loop h raw i j day df = Some y"
  shows "h < 0 \<longrightarrow> int (length raw) < j"
proof (rule daily_loop.raw_induct
         [where P = "\<lambda>h raw i j day df y. h < 0 \<longrightarrow> int (length raw) < j", OF _ assms])
  fix f :: "int \<Rightarrow> 'a list \<Rightarrow> int \<Rightarrow> int \<Rightarrow> int \<Rightarrow> 'a frame \<Rightarrow> 'a frame option"
    and h raw i j day df y
  assume IH: "\<And>h raw i j day df y. f h raw i j day df = Some y \<Longrightarrow> h < 0 \<longrightarrow> int (length raw) < j"
    and st: "(if j \<le> int (length raw)
              then f h raw j (j + h) (day + 1) (setitem df day (py_slice raw i j))
              else Some df) = Some y"
  show "h < 0 \<longrightarrow> int (length raw) < j"
  proof (cases "j \<le> int (length raw)")
    case True
    then have "f h raw j (j + h) (day + 1) (setitem df day (py_slice raw i j)) = Some y"
      using st by simp
    from IH [OF this] True show ?thesis by auto
  next
    case False
    then show ?thesis by simp
  qed
qed

lemma generate_daily_data_horizon:
  "generate_daily_data h raw day_list = Some df \<Longrightarrow> 0 \<le> h"
  using daily_loop_returns [of h raw 0 h 1 "DataFrame_columns day_list" df]
  by (auto simp: generate_daily_data_def)

lemma setitem_cols:
  "(d, Some v) \<in> set (setitem df c w) \<Longrightarrow> v = w \<or> (d, Some v) \<in> set df"
  by (auto simp: setitem_def split: if_splits)

lemma fold_setitem_cols:
  "(d, Some v) \<in> set (fold (\<lambda>d df. setitem df d (f d)) ds df) \<Longrightarrow>
   (\<exists>d'\<in>set ds. v = f d') \<or> (d, Some v) \<in> set df"
proof (induction ds arbitrary: df)
  case Nil
  then show ?case by simp
next
  case (Cons a ds)
  from Cons.IH [OF Cons.prems [simplified]] show ?case
    using setitem_cols [of d v df a "f a"] by auto
qed

lemma reconfigure_raw_data_rows:
  assumes "reconfigure_raw_data self raw_data = Some (Inr (daily_data, sc))"
  shows "0 < horizon_length self"
    and "(d, Some v) \<in> set daily_data \<Longrightarrow> length v = nat (horizon_length self)"
proof -
  let ?h = "horizon_length self"
  obtain cols where cols: "raw_data = DataFrame cols"
    using assms by (cases raw_data) (simp_all add: reconfigure_raw_data_def)
  have h0: "?h \<noteq> 0"
    using assms cols by (auto simp: reconfigure_raw_data_def)
  obtain col where g: "generate_daily_data ?h col [1..int (n_rows cols) div ?h] = Some daily_data"
    using assms cols h0
    by (auto simp: reconfigure_raw_data_def Let_def split: list.splits option.splits)
  show pos: "0 < ?h" using generate_daily_data_horizon [OF g] h0 by simp
  assume "(d, Some v) \<in> set daily_data"
  then have "(d, Some v) \<in> set (fold (\<lambda>d df. setitem df d (window ?h col d))
                 [1..int (length col) div ?h] (DataFrame_columns [1..int (n_rows cols) div ?h]))"
    using g generate_daily_data_closed [OF pos, of col] by simp
  from fold_setitem_cols [OF this]
  have "(\<exists>d'\<in>set [1..int (length col) div ?h]. v = window ?h col d')
      \<or> (d, Some v) \<in> set (DataFrame_columns [1..int (n_rows cols) div ?h] :: real frame)" .
  moreover have "(d, Some v) \<notin> set (DataFrame_columns [1..int (n_rows cols) div ?h] :: real frame)"
    by (auto simp: DataFrame_columns_def)
  ultimately obtain d' where d': "d' \<in> set [1..int (length col) div ?h]" "v = window ?h col d'"
    by auto
  then have "1 \<le> d'" "d' * ?h \<le> int (length col)" using le_div_iff [OF pos] by auto
  then show "length v = nat ?h" using length_window [OF pos] d'(2) by simp
qed

lemma frame_rows_horizon:
  assumes "reconfigure_raw_data self raw_data = Some (Inr (daily_data, sc))"
      and "0 < frame_rows daily_data"
  shows "frame_rows daily_data = nat (horizon_length self)"
proof -
  obtain d v rest where df: "daily_data = (d, Some v) # rest"
    using assms(2) by (auto simp: frame_rows_def split: list.splits option.splits)
  then have "(d, Some v) \<in> set daily_data" by simp
  from reconfigure_raw_data_rows(2) [OF assms(1) this] show ?thesis
    by (simp add: df frame_rows_def)
qed

subsection \<open>The constructor\<close>

text \<open>The constructor accepts every horizon.\<close>

lemma PriceTakerModel_init_never_raises: "PriceTakerModel_init s h \<noteq> Inl e"
  by (simp add: PriceTakerModel_init_def)

text \<open>
  Claim C3. The constructor does not check \<open>horizon_length\<close>: \<open>PriceTakerModel(20, 0)\<close>
  returns a model whose horizon is 0, although the setter of the property rejects the
  same value with a \<open>ValueError\<close>.
\<close>

theorem PriceTakerModel_init_unvalidated:
  "\<exists>self. PriceTakerModel_init 20 0 = Inr self \<and> horizon_length self = 0
         \<and> horizon_length_setter 0 self = Inl ValueError"
  by (simp add: PriceTakerModel_init_def horizon_length_setter_def)

subsection \<open>The elbow\<close>

text \<open>\<open>get_optimal_n_clusters\<close> never returns a null cluster count.\<close>

lemma get_optimal_n_clusters_never_None:
  "get_optimal_n_clusters lib self g daily_data kmin kmax plot \<noteq> (Inr (None, vs), g')"
  by (auto simp: get_optimal_n_clusters_def Let_def split: sum.splits option.splits prod.splits)

text \<open>
  Claim C4. When the sweep succeeds and the knee detector finds no elbow, the method does
  not return a null cluster count: it raises \<open>TypeError\<close> at \<open>n_clusters + 2 >= kmax\<close>
  (\<open>lo\<close> and \<open>hi\<close> are \<open>kmin\<close> and \<open>kmax\<close>, or their defaults 4 and 30).
\<close>

theorem get_optimal_n_clusters_no_elbow:
  assumes "lo = (case kmin of None \<Rightarrow> 4 | Some k \<Rightarrow> k)"
      and "hi = (case kmax of None \<Rightarrow> 30 | Some k \<Rightarrow> k)"
      and "seed_rng lib (seed self) = Inr g0"
      and "inertia_sweep lib g0 daily_data [lo..hi - 1] [] = (Inr inertia_values, g1)"
      and "knee lib [lo..hi - 1] inertia_values = Inr None"
  shows "get_optimal_n_clusters lib self g daily_data kmin kmax plot = (Inl TypeError, g1)"
  using assms(3-5) unfolding assms(1,2) by (simp add: get_optimal_n_clusters_def)

theorem get_optimal_n_clusters_no_elbow_witness:
  "get_optimal_n_clusters demo_lib demo_model 0 [(1, Some [1, 2]), (2, Some [3, 4])]
     (Some 1) (Some 3) False = (Inl TypeError, 22)"
proof -
  have u: "[1..3 - 1] = [1, 2::int]" by (simp add: upto.simps)
  have 1: "seed_rng demo_lib (seed demo_model) = Inr 20"
    by (simp add: demo_lib_def demo_model_def)
  have 2: "inertia_sweep demo_lib 20 [(1, Some [1, 2]), (2, Some [3, 4])] [1..3 - 1] []
             = (Inr [0, 0], 22)"
    unfolding u by (simp add: demo_lib_def demo_fit_def)
  have 3: "knee demo_lib [1..3 - 1] [0, 0] = Inr None" by (simp add: demo_lib_def)
  show ?thesis by (rule get_optimal_n_clusters_no_elbow [OF _ _ 1 2 3]) simp_all
qed

subsection \<open>The clamp of the centroids\<close>

lemma clamp1_idem: "clamp1 (clamp1 x) = clamp1 x"
  by (simp add: clamp1_def)

lemma clamp_row_ok:
  "list_all (\<lambda>t. t < length row) ts \<Longrightarrow>
   clamp_row row ts = Inr (map (\<lambda>i. if i \<in> set ts then clamp1 (row ! i) else row ! i) [0..<length row])"
proof (induction ts arbitrary: row)
  case Nil
  then show ?case by (simp add: map_nth)
next
  case (Cons t ts)
  let ?row = "row[t := clamp1 (row ! t)]"
  have r: "(if row ! t < 1 / 10000 then row[t := 0] else row) = ?row"
    by (simp add: clamp1_def)
  have all: "list_all (\<lambda>t. t < length ?row) ts" using Cons.prems by simp
  have t: "t < length row" using Cons.prems by simp
  show ?case
    unfolding clamp_row.simps r using t
    by (simp add: Cons.IH [OF all] nth_list_update clamp1_idem)
qed

lemma clamp_row_err:
  "\<not> list_all (\<lambda>t. t < length row) ts \<Longrightarrow> clamp_row row ts = Inl IndexError"
proof (induction ts arbitrary: row)
  case Nil
  then show ?case by simp
next
  case (Cons t ts)
  show ?case
  proof (cases "t < length row")
    case True
    have "clamp_row r ts = Inl IndexError" if "length r = length row" for r
      using Cons.IH [of r] Cons.prems True that by simp
    then show ?thesis using True by simp
  next
    case False
    then show ?thesis by simp
  qed
qed

lemma clamp_row_24:
  "clamp_row row [0..<24] = (if 24 \<le> length row then Inr (clamp24 row) else Inl IndexError)"
proof (cases "24 \<le> length row")
  case True
  then have all: "list_all (\<lambda>t. t < length row) [0..<24]"
    unfolding list_all_iff by auto
  have "map (\<lambda>i. if i \<in> set [0..<24] then clamp1 (row ! i) else row ! i) [0..<length row]
        = clamp24 row"
    using True unfolding clamp24_def
    by (intro nth_equalityI) (auto simp: nth_append min_def)
  then have "clamp_row row [0..<24] = Inr (clamp24 row)"
    using clamp_row_ok [OF all] by (simp only:)
  then show ?thesis using True by (simp only: if_True)
next
  case False
  then have "\<not> list_all (\<lambda>t. t < length row) [0..<24]"
    unfolding list_all_iff by auto
  then have "clamp_row row [0..<24] = Inl IndexError" by (rule clamp_row_err)
  then show ?thesis using False by (simp only: if_False)
qed

lemma length_clamp24: "length (clamp24 row) = length row"
  by (simp add: clamp24_def)

lemma clamp_centroids_ok:
  "distinct ds \<Longrightarrow> list_all (\<lambda>d. d < length cs) ds \<Longrightarrow> list_all (\<lambda>r. 24 \<le> length r) cs \<Longrightarrow>
   clamp_centroids cs ds =
     Inr (map (\<lambda>i. if i \<in> set ds then clamp24 (cs ! i) else cs ! i) [0..<length cs])"
proof (induction ds arbitrary: cs)
  case Nil
  then show ?case by (simp add: map_nth)
next
  case (Cons d ds)
  let ?cs = "cs[d := clamp24 (cs ! d)]"
  have d: "d < length cs" "d \<notin> set ds" "distinct ds" using Cons.prems by auto
  have row: "24 \<le> length (cs ! d)" using Cons.prems(3) d(1) by (simp add: list_all_length)
  have 1: "list_all (\<lambda>d. d < length ?cs) ds" using Cons.prems(2) by simp
  have 2: "list_all (\<lambda>r. 24 \<le> length r) ?cs"
    using Cons.prems(3) row unfolding list_all_iff
    by (auto dest!: set_update_subset_insert [THEN subsetD] simp: length_clamp24)
  have row': "clamp_row (cs ! d) [0..<24] = Inr (clamp24 (cs ! d))"
    using row by (simp only: clamp_row_24 if_True)
  have "clamp_centroids cs (d # ds) = clamp_centroids ?cs ds"
    using d(1) by (simp only: clamp_centroids.simps row' if_True sum.case)
  also have "\<dots> = Inr (map (\<lambda>i. if i \<in> set ds then clamp24 (?cs ! i) else ?cs ! i)
                         [0..<length ?cs])"
    by (rule Cons.IH [OF d(3) 1 2])
  also have "\<dots> = Inr (map (\<lambda>i. if i \<in> set (d # ds) then clamp24 (cs ! i) else cs ! i)
                         [0..<length cs])"
    using d(1,2) by (auto simp: nth_list_update)
  finally show ?case .
qed

lemma clamp_centroids_range:
  assumes "length cs = n" "list_all (\<lambda>r. length r = h) cs"
  shows "clamp_centroids cs [0..<n] =
           (if h < 24 \<and> 0 < n then Inl IndexError else Inr (map clamp24 cs))"
proof (cases "h < 24 \<and> 0 < n")
  case True
  then have "length (cs ! 0) = h" using assms by (simp add: list_all_length)
  then have row: "clamp_row (cs ! 0) [0..<24] = Inl IndexError"
    using True by (simp only: clamp_row_24) simp
  have "[0..<n] = 0 # [1..<n]" using True by (simp add: upt_conv_Cons)
  then have "clamp_centroids cs [0..<n] = Inl IndexError"
    using True assms(1) by (simp only: clamp_centroids.simps row) simp
  then show ?thesis using True by simp
next
  case False
  show ?thesis
  proof (cases "n = 0")
    case True
    then show ?thesis using assms(1) by simp
  next
    case n: False
    then have h: "24 \<le> h" using False by simp
    have 1: "list_all (\<lambda>d. d < length cs) [0..<n]" using assms(1) by (simp add: list_all_iff)
    have 2: "list_all (\<lambda>r. 24 \<le> length r) cs" using assms(2) h by (simp add: list_all_iff)
    have "map (\<lambda>i. if i \<in> set [0..<n] then clamp24 (cs ! i) else cs ! i) [0..<length cs]
          = map clamp24 cs"
      using assms(1) by (intro nth_equalityI) auto
    then show ?thesis using False clamp_centroids_ok [OF _ 1 2] by simp
  qed
qed

declare clamp_row.simps [simp del] clamp_centroids.simps [simp del]

lemma nth_clamp24:
  "t < length row \<Longrightarrow> clamp24 row ! t = (if t < 24 then clamp1 (row ! t) else row ! t)"
  by (auto simp: clamp24_def nth_append min_def)

subsection \<open>Counting the labels\<close>

lemma count_label_distinct:
  "distinct ks \<Longrightarrow>
   count_label l wc ks =
     (if \<exists>k\<in>set ks. l = int k then wc[nat l := wc ! nat l + 1] else wc)"
proof (induction ks arbitrary: wc)
  case Nil
  then show ?case by simp
next
  case (Cons k ks)
  then have d: "distinct ks" "k \<notin> set ks" by auto
  show ?case
  proof (cases "l = int k")
    case True
    then have "\<not> (\<exists>k'\<in>set ks. l = int k')" using d(2) by auto
    then show ?thesis using True Cons.IH [OF d(1)] by simp
  next
    case False
    then show ?thesis using Cons.IH [OF d(1)] by simp
  qed
qed

lemma count_label_range:
  "count_label l wc [0..<n] =
     (if 0 \<le> l \<and> l < int n then wc[nat l := wc ! nat l + 1] else wc)"
proof -
  have "(\<exists>k\<in>set [0..<n]. l = int k) = (0 \<le> l \<and> l < int n)"
    by (auto intro: bexI [of _ "nat l"])
  then show ?thesis using count_label_distinct [of "[0..<n]" l wc] by simp
qed

lemma sum_list_incr:
  "i < length (xs :: real list) \<Longrightarrow> sum_list (xs[i := xs ! i + 1]) = sum_list xs + 1"
  by (induction xs arbitrary: i) (auto split: nat.splits)

lemma count_label_props:
  assumes "length wc = n"
  shows "length (count_label l wc [0..<n]) = n"
    and "sum_list (count_label l wc [0..<n]) = sum_list wc + (if 0 \<le> l \<and> l < int n then 1 else 0)"
    and "list_all (\<lambda>w. w \<in> \<nat>) wc \<Longrightarrow> list_all (\<lambda>w. w \<in> \<nat>) (count_label l wc [0..<n])"
proof -
  show "length (count_label l wc [0..<n]) = n" using assms by (simp add: count_label_range)
  show "sum_list (count_label l wc [0..<n]) = sum_list wc + (if 0 \<le> l \<and> l < int n then 1 else 0)"
    using assms by (auto simp add: count_label_range intro!: sum_list_incr)
  assume a: "list_all (\<lambda>w. w \<in> \<nat>) wc"
  show "list_all (\<lambda>w. w \<in> \<nat>) (count_label l wc [0..<n])"
  proof (cases "0 \<le> l \<and> l < int n")
    case True
    then have "nat l < length wc" using assms by auto
    then have "wc ! nat l + 1 \<in> \<nat>" using a by (simp add: list_all_length)
    then show ?thesis using a True unfolding count_label_range list_all_iff
      by (auto dest!: set_update_subset_insert [THEN subsetD])
  next
    case False
    then show ?thesis using a by (auto simp add: count_label_range)
  qed
qed

lemma fold_count_props:
  assumes "length wc = n" "list_all (\<lambda>w. w \<in> \<nat>) wc"
  shows "length (fold (\<lambda>l wc. count_label l wc [0..<n]) ls wc) = n
       \<and> list_all (\<lambda>w. w \<in> \<nat>) (fold (\<lambda>l wc. count_label l wc [0..<n]) ls wc)
       \<and> sum_list (fold (\<lambda>l wc. count_label l wc [0..<n]) ls wc) =
           sum_list wc + real (length (filter (\<lambda>l. 0 \<le> l \<and> l < int n) ls))"
  using assms
proof (induction ls arbitrary: wc)
  case Nil
  then show ?case by simp
next
  case (Cons l ls)
  note p = count_label_props [OF Cons.prems(1), of l]
  show ?case
    using Cons.IH [OF p(1) p(3) [OF Cons.prems(2)]] p(2) by simp
qed

lemma count_weights_props:
  "length (count_weights ls n) = n"
  "list_all (\<lambda>w. w \<in> \<nat>) (count_weights ls n)"
  "sum_list (count_weights ls n) = real (length (filter (\<lambda>l. 0 \<le> l \<and> l < int n) ls))"
proof -
  have z: "sum_list (replicate n (0::real)) = 0" by (induction n) simp_all
  show "length (count_weights ls n) = n"
    "list_all (\<lambda>w. w \<in> \<nat>) (count_weights ls n)"
    "sum_list (count_weights ls n) = real (length (filter (\<lambda>l. 0 \<le> l \<and> l < int n) ls))"
    using fold_count_props [of "replicate n 0" n ls] z
    by (simp_all add: count_weights_def list_all_iff)
qed

lemma count_label_nth:
  assumes "length wc = n" "k < n"
  shows "count_label l wc [0..<n] ! k = wc ! k + (if l = int k then 1 else 0)"
  using assms by (auto simp: count_label_range nth_list_update)

lemma fold_count_nth:
  assumes "length wc = n" "k < n"
  shows "fold (\<lambda>l wc. count_label l wc [0..<n]) ls wc ! k =
           wc ! k + real (length (filter (\<lambda>l. l = int k) ls))"
  using assms(1)
proof (induction ls arbitrary: wc)
  case Nil
  then show ?case by simp
next
  case (Cons l ls)
  note p = count_label_props(1) [OF Cons.prems, of l]
  show ?case
    using Cons.IH [OF p] count_label_nth [OF Cons.prems assms(2), of l] by simp
qed

text \<open>Entry \<open>k\<close> of the counter is the number of labels equal to \<open>k\<close>.\<close>

lemma count_weights_nth:
  "k < n \<Longrightarrow> count_weights ls n ! k = real (length (filter (\<lambda>l. l = int k) ls))"
  using fold_count_nth [of "replicate n 0" n k ls] by (simp add: count_weights_def)

lemma cluster_post_weights:
  assumes "cluster_post n km = Inr (lmp_data, weights)"
  shows "0 \<le> n
       \<and> weights = [(0, map (\<lambda>k. (int k + 1, count_weights (labels km) (nat n) ! k)) [0..<nat n])]"
  using assms
  by (auto simp: cluster_post_def Let_def count_weights_props split: sum.splits if_splits)

lemma upto_1_2: "[1..2] = [1, 2::int]"
  by (simp add: upto.simps)

lemma upto_as_map: "map (\<lambda>k. int k + 1) [0..<m] = [1..int m]"
proof (induction m)
  case 0
  then show ?case by simp
next
  case (Suc m)
  have "[1..int (Suc m)] = [1..int m] @ [int m + 1]"
    using upto_rec2 [of 1 "int m + 1"] by (simp add: add.commute)
  then show ?case using Suc by simp
qed

subsection \<open>The clustering of the concrete sheet\<close>

lemma demo_reconfigure:
  "reconfigure_raw_data demo_model (DataFrame demo_sheet) =
     Some (Inr (demo_daily, [LStr ''price'', LInt 2021]))"
proof -
  have len: "int (length demo_prices) div 24 = 3" by (simp add: demo_prices_def)
  have up: "[1..3] = [1, 2, 3::int]" by (simp add: upto.simps)
  have w: "window 24 demo_prices 1 = replicate 24 10"
    "window 24 demo_prices 2 = replicate 24 20"
    "window 24 demo_prices 3 = replicate 24 30"
    by (simp_all add: window_def demo_prices_def)
  have "generate_daily_data 24 demo_prices [1..int (length demo_prices) div 24] =
          Some (map (\<lambda>d. (d, Some (window 24 demo_prices d))) [1..int (length demo_prices) div 24])"
    by (rule generate_daily_data_day_list) simp
  then have g: "generate_daily_data 24 demo_prices [1..3] = Some demo_daily"
    unfolding len up by (simp add: w demo_daily_def)
  have h: "horizon_length demo_model = 24" by (simp add: demo_model_def)
  have n: "int (n_rows demo_sheet) div 24 = 3" by (simp add: n_rows_def demo_sheet_def)
  have heads: "map fst demo_sheet = [LStr ''Date'', LStr ''Hour'', LStr ''price'', LInt 2021]"
    by (simp add: demo_sheet_def)
  have col: "map_of demo_sheet (LStr ''price'') = Some demo_prices"
    by (simp add: demo_sheet_def)
  show ?thesis
    unfolding reconfigure_raw_data_def h
    by (simp add: n g heads col)
qed

lemma demo_fit_0:
  "demo_fit 0 2 demo_daily =
     (Inr \<lparr>cluster_centers = [replicate 24 10, replicate 24 20], labels = [0, 1, 0],
           inertia = 0\<rparr>, 1)"
  by (simp add: demo_fit_def demo_daily_def upt_rec_numeral)

lemma demo_fit_1:
  "demo_fit (Suc 0) 2 demo_daily =
     (Inr \<lparr>cluster_centers = [replicate 24 20, replicate 24 10], labels = [1, 0, 1],
           inertia = 0\<rparr>, 2)"
  by (simp add: demo_fit_def demo_daily_def upt_rec_numeral)

lemma demo_cluster_post:
  assumes "\<not> a < 1 / 10000" "\<not> b < 1 / 10000"
  shows "cluster_post 2 \<lparr>cluster_centers = [replicate 24 a, replicate 24 b], labels = ls,
                     inertia = 0\<rparr>
     = Inr (demo_lmp a b, [(0, [(1, count_weights ls 2 ! 0), (2, count_weights ls 2 ! 1)])])"
proof -
  have c: "clamp_centroids [replicate 24 a, replicate 24 b] [0..<2] =
             Inr [replicate 24 a, replicate 24 b]"
    using assms clamp_centroids_range [of "[replicate 24 a, replicate 24 b]" 2 24]
    by (simp add: clamp24_def clamp1_def)
  have n: "nat 2 = 2" by simp
  have l: "length (count_weights ls 2) = 2" by (rule count_weights_props)
  have two: "[0..<2] = [0, Suc 0]" by (simp add: numeral_2_eq_2)
  have r: "map (\<lambda>t. (int t, replicate 24 x ! t)) [0..<24] = map (\<lambda>t. (int t, x)) [0..<24]"
    for x :: real
    by (rule map_cong) simp_all
  have c': "clamp_centroids [replicate 24 a, replicate 24 b] [0, Suc 0] =
             Inr [replicate 24 a, replicate 24 b]"
    using c unfolding two .
  show ?thesis
    unfolding cluster_post_def n
    by (simp add: two c' l r demo_lmp_def Let_def del: upt_rec_numeral)
qed

lemma demo_weights_0: "count_weights [0, 1, 0] 2 = [2, 1]"
  by (simp add: count_weights_def count_label_range numeral_2_eq_2)

lemma demo_weights_1: "count_weights [1, 0, 1] 2 = [1, 2]"
  by (simp add: count_weights_def count_label_range numeral_2_eq_2)

lemma reconfigure_horizon:
  assumes h: "horizon_length a = horizon_length b"
  shows "reconfigure_raw_data a raw = reconfigure_raw_data b raw"
  unfolding reconfigure_raw_data_def h by (rule refl)

lemma demo_cluster_0:
  assumes "horizon_length self = 24"
  shows "cluster_lmp_data demo_lib self 0 (DataFrame demo_sheet) 2 hl =
           Some (Inr (demo_lmp 10 20, [(0, [(1, 2), (2, 1)])]), 1)"
proof -
  have r: "reconfigure_raw_data self (DataFrame demo_sheet) =
             Some (Inr (demo_daily, [LStr ''price'', LInt 2021]))"
    using reconfigure_horizon [of self demo_model] assms demo_reconfigure
    by (simp add: demo_model_def)
  have f: "KMeans_fit demo_lib (0) 2 demo_daily = demo_fit 0 2 demo_daily"
    by (simp add: demo_lib_def)
  show ?thesis
    by (simp add: cluster_lmp_data_def r f demo_fit_0 demo_cluster_post demo_weights_0)
qed

lemma demo_cluster_1:
  assumes "horizon_length self = 24"
  shows "cluster_lmp_data demo_lib self 1 (DataFrame demo_sheet) 2 hl =
           Some (Inr (demo_lmp 20 10, [(0, [(1, 1), (2, 2)])]), 2)"
proof -
  have r: "reconfigure_raw_data self (DataFrame demo_sheet) =
             Some (Inr (demo_daily, [LStr ''price'', LInt 2021]))"
    using reconfigure_horizon [of self demo_model] assms demo_reconfigure
    by (simp add: demo_model_def)
  have f: "KMeans_fit demo_lib (Suc 0) 2 demo_daily = demo_fit 1 2 demo_daily"
    by (simp add: demo_lib_def)
  show ?thesis
    by (simp add: cluster_lmp_data_def r f demo_fit_1 demo_cluster_post demo_weights_1)
qed

subsection \<open>The clamp and the horizon\<close>

lemma cluster_post_hours:
  assumes "0 < n" "length (cluster_centers km) = nat n"
      and "\<forall>r\<in>set (cluster_centers km). length r = h"
  shows "cluster_post n km =
           (if h < 24 then Inl IndexError
            else Inr (map (\<lambda>d. (int d + 1,
                        map (\<lambda>t. (int t, if t < 24 then clamp1 (cluster_centers km ! d ! t)
                                          else cluster_centers km ! d ! t)) [0..<h]))
                        [0..<nat n],
                      [(0, map (\<lambda>k. (int k + 1, count_weights (labels km) (nat n) ! k))
                             [0..<nat n])]))"
proof -
  let ?cs = "cluster_centers km"
  have all: "list_all (\<lambda>r. length r = h) ?cs" using assms(3) by (simp add: list_all_iff)
  note r = clamp_centroids_range [OF assms(2) all]
  show ?thesis
  proof (cases "h < 24")
    case True
    then have "clamp_centroids ?cs [0..<nat n] = Inl IndexError" using r assms(1) by simp
    then show ?thesis using True by (simp add: cluster_post_def)
  next
    case False
    then have c: "clamp_centroids ?cs [0..<nat n] = Inr (map clamp24 ?cs)" using r by simp
    have row: "map (\<lambda>t. (int t, map clamp24 ?cs ! d ! t)) [0..<length (map clamp24 ?cs ! d)]
             = map (\<lambda>t. (int t, if t < 24 then clamp1 (?cs ! d ! t) else ?cs ! d ! t)) [0..<h]"
      if "d < nat n" for d
    proof -
      have l: "length (?cs ! d) = h" using that assms(2,3) by simp
      show ?thesis using that assms(2) l
        by (simp add: length_clamp24 nth_clamp24 cong: map_cong)
    qed
    have rows: "map (\<lambda>d. (int d + 1, map (\<lambda>t. (int t, map clamp24 ?cs ! d ! t))
                                       [0..<length (map clamp24 ?cs ! d)])) [0..<nat n]
             = map (\<lambda>d. (int d + 1,
                        map (\<lambda>t. (int t, if t < 24 then clamp1 (?cs ! d ! t)
                                          else ?cs ! d ! t)) [0..<h])) [0..<nat n]"
      by (rule map_cong) (simp_all add: row)
    show ?thesis
      using False assms(1,2) rows
      by (simp add: cluster_post_def c Let_def count_weights_props(1) del: upt_rec_numeral)
  qed
qed

lemma map_of_hours:
  "map_of (map (\<lambda>t. (int t, f t)) [0..<n]) k =
     (if 0 \<le> k \<and> k < int n then Some (f (nat k)) else None)"
  by (induction n) (auto simp: map_add_def split: option.splits)

lemma one_day_reconfigure:
  assumes "horizon_length self = int (length prices)" "prices \<noteq> []"
  shows "reconfigure_raw_data self (DataFrame (demo_day_sheet prices)) =
           Some (Inr ([(1, Some prices)], [LStr ''price'']))"
proof -
  let ?h = "int (length prices)"
  have pos: "0 < ?h" using assms(2) by simp
  have d: "?h div ?h = 1" using pos by simp
  have w: "window ?h prices 1 = prices" by (simp add: window_def)
  have u: "[1..1] = [1::int]" by (simp add: upto.simps)
  have "generate_daily_data ?h prices [1..?h div ?h] =
          Some (map (\<lambda>d. (d, Some (window ?h prices d))) [1..?h div ?h])"
    by (rule generate_daily_data_day_list [OF pos])
  then have g: "generate_daily_data ?h prices [1] = Some [(1, Some prices)]"
    unfolding d u by (simp add: w)
  show ?thesis
    unfolding reconfigure_raw_data_def assms(1)
    using assms(2) by (simp add: n_rows_def demo_day_sheet_def u g)
qed

lemma one_day_fit:
  "KMeans_fit demo_lib 0 1 [(1, Some prices)] =
     (Inr \<lparr>cluster_centers = [prices], labels = [0], inertia = 0\<rparr>, Suc 0)"
  by (simp add: demo_lib_def demo_fit_def)

text \<open>
  Claim C10. Let \<open>cluster_lmp_data\<close> get a daily table with at least one day from
  \<open>reconfigure_raw_data\<close>, and let the fit return \<open>n_clusters >= 1\<close> centres, each with one
  entry per row of the table (which is \<open>horizon_length\<close> entries, lemma
  \<open>frame_rows_horizon\<close>). The clamp visits the hours 0 to 23 of every centre, whatever the
  horizon. For \<open>horizon_length = 24\<close> the method returns, and \<open>lmp_data[d + 1][t]\<close> is entry
  \<open>t\<close> of centre \<open>d\<close> with every value below \<open>1e-4\<close> (a negative price too) replaced by 0
  and every other value as it was. For \<open>horizon_length < 24\<close> the clamp reads past the end of
  the first centre and the method raises \<open>IndexError\<close>. For \<open>horizon_length > 24\<close> the method
  returns, the entries \<open>t < 24\<close> are clamped and the entries from \<open>t = 24\<close> on are left as
  the fit returned them, below \<open>1e-4\<close> or not.
\<close>

theorem cluster_lmp_data_clamp_hours:
  assumes "reconfigure_raw_data self raw_data = Some (Inr (daily_data, sc))"
      and "KMeans_fit lib g n_clusters daily_data = (Inr km, g')"
      and "0 < n_clusters" and "length (cluster_centers km) = nat n_clusters"
      and "0 < frame_rows daily_data"
      and "\<forall>r\<in>set (cluster_centers km). length r = frame_rows daily_data"
  shows "(horizon_length self = 24 \<longrightarrow>
            (\<exists>weights. cluster_lmp_data lib self g raw_data n_clusters scen =
               Some (Inr (map (\<lambda>d. (int d + 1,
                            map (\<lambda>t. (int t, clamp1 (cluster_centers km ! d ! t))) [0..<24]))
                            [0..<nat n_clusters], weights), g')))
       \<and> (horizon_length self < 24 \<longrightarrow>
            cluster_lmp_data lib self g raw_data n_clusters scen = Some (Inl IndexError, g'))
       \<and> (24 < horizon_length self \<longrightarrow>
            (\<exists>weights. cluster_lmp_data lib self g raw_data n_clusters scen =
               Some (Inr (map (\<lambda>d. (int d + 1,
                            map (\<lambda>t. (int t, if t < 24 then clamp1 (cluster_centers km ! d ! t)
                                              else cluster_centers km ! d ! t))
                              [0..<nat (horizon_length self)]))
                            [0..<nat n_clusters], weights), g')))"
proof -
  let ?h = "horizon_length self"
  have rows: "frame_rows daily_data = nat ?h" by (rule frame_rows_horizon [OF assms(1,5)])
  have len: "\<forall>r\<in>set (cluster_centers km). length r = nat ?h" using assms(6) rows by simp
  have pos: "0 < ?h" by (rule reconfigure_raw_data_rows(1) [OF assms(1)])
  note post = cluster_post_hours [OF assms(3,4) len]
  have run: "cluster_lmp_data lib self g raw_data n_clusters scen =
               Some (cluster_post n_clusters km, g')"
    using assms(1,2) by (simp add: cluster_lmp_data_def)
  have a: "map (\<lambda>t. (int t, if t < 24 then clamp1 (cluster_centers km ! d ! t)
                            else cluster_centers km ! d ! t)) [0..<24]
         = map (\<lambda>t. (int t, clamp1 (cluster_centers km ! d ! t))) [0..<24]" for d
    by (rule map_cong) simp_all
  let ?W = "[(0, map (\<lambda>k. (int k + 1, count_weights (labels km) (nat n_clusters) ! k))
                     [0..<nat n_clusters])] :: dict2"
  show ?thesis
  proof (intro conjI impI)
    assume h: "?h = 24"
    have "cluster_post n_clusters km =
            Inr (map (\<lambda>d. (int d + 1,
                    map (\<lambda>t. (int t, clamp1 (cluster_centers km ! d ! t))) [0..<24]))
                    [0..<nat n_clusters], ?W)"
      using post h by (simp add: a del: upt_rec_numeral)
    then show "\<exists>weights. cluster_lmp_data lib self g raw_data n_clusters scen =
               Some (Inr (map (\<lambda>d. (int d + 1,
                            map (\<lambda>t. (int t, clamp1 (cluster_centers km ! d ! t))) [0..<24]))
                            [0..<nat n_clusters], weights), g')"
      unfolding run by simp
  next
    assume "?h < 24"
    then have "nat ?h < 24" using pos by simp
    then show "cluster_lmp_data lib self g raw_data n_clusters scen = Some (Inl IndexError, g')"
      unfolding run using post by simp
  next
    assume "24 < ?h"
    then have "\<not> nat ?h < 24" by simp
    then have "cluster_post n_clusters km =
            Inr (map (\<lambda>d. (int d + 1,
                    map (\<lambda>t. (int t, if t < 24 then clamp1 (cluster_centers km ! d ! t)
                                      else cluster_centers km ! d ! t))
                      [0..<nat ?h])) [0..<nat n_clusters], ?W)"
      using post by (simp only: if_False)
    then show "\<exists>weights. cluster_lmp_data lib self g raw_data n_clusters scen =
               Some (Inr (map (\<lambda>d. (int d + 1,
                            map (\<lambda>t. (int t, if t < 24 then clamp1 (cluster_centers km ! d ! t)
                                              else cluster_centers km ! d ! t))
                              [0..<nat (horizon_length self)]))
                            [0..<nat n_clusters], weights), g')"
      unfolding run by simp
  qed
qed

text \<open>
  Three sheets of one day: 24 hours with a negative last price, 2 hours, and 25 hours of
  negative prices.
\<close>

theorem cluster_lmp_data_clamp_hours_witness:
  "(\<exists>lmp weights g.
       cluster_lmp_data demo_lib demo_model 0
         (DataFrame (demo_day_sheet (replicate 23 2 @ [- 1]))) 1 None
         = Some (Inr (lmp, weights), g)
     \<and> dict2_get lmp 1 0 = Inr 2 \<and> dict2_get lmp 1 23 = Inr 0)
   \<and> cluster_lmp_data demo_lib (demo_model\<lparr>horizon_length := 2\<rparr>) 0
         (DataFrame (demo_day_sheet [5, - 1])) 1 None
       = Some (Inl IndexError, 1)
   \<and> (\<exists>lmp weights g.
       cluster_lmp_data demo_lib (demo_model\<lparr>horizon_length := 25\<rparr>) 0
         (DataFrame (demo_day_sheet (replicate 25 (- 1)))) 1 None
         = Some (Inr (lmp, weights), g)
     \<and> dict2_get lmp 1 23 = Inr 0 \<and> dict2_get lmp 1 24 = Inr (- 1))"
proof -
  let ?a = "replicate 23 2 @ [- 1] :: real list"
  let ?b = "[5, - 1] :: real list"
  let ?c = "replicate 25 (- 1) :: real list"
  let ?B = "demo_model\<lparr>horizon_length := 2\<rparr>"
  let ?C = "demo_model\<lparr>horizon_length := 25\<rparr>"
  have ra: "reconfigure_raw_data demo_model (DataFrame (demo_day_sheet ?a)) =
              Some (Inr ([(1, Some ?a)], [LStr ''price'']))"
    by (rule one_day_reconfigure) (simp_all add: demo_model_def)
  have rb: "reconfigure_raw_data ?B (DataFrame (demo_day_sheet ?b)) =
              Some (Inr ([(1, Some ?b)], [LStr ''price'']))"
    by (rule one_day_reconfigure) simp_all
  have rc: "reconfigure_raw_data ?C (DataFrame (demo_day_sheet ?c)) =
              Some (Inr ([(1, Some ?c)], [LStr ''price'']))"
    by (rule one_day_reconfigure) simp_all
  have one: "[0..<nat 1] = [0]" by simp
  have ha: "horizon_length demo_model = 24" by (simp add: demo_model_def)
  have a23: "?a ! 23 = - 1" "?a ! 0 = 2" by (simp_all add: nth_append)
  have c24: "?c ! 23 = - 1" "?c ! 24 = - 1" by simp_all
  note ta = cluster_lmp_data_clamp_hours [OF ra one_day_fit, of None]
  note tb = cluster_lmp_data_clamp_hours [OF rb one_day_fit, of None]
  note tc = cluster_lmp_data_clamp_hours [OF rc one_day_fit, of None]
  have A: "\<exists>weights. cluster_lmp_data demo_lib demo_model 0 (DataFrame (demo_day_sheet ?a)) 1 None =
             Some (Inr ([(1, map (\<lambda>t. (int t, clamp1 (?a ! t))) [0..<24])], weights), Suc 0)"
    using ta ha by (simp add: frame_rows_def del: upt_rec_numeral)
  have B: "cluster_lmp_data demo_lib ?B 0 (DataFrame (demo_day_sheet ?b)) 1 None =
             Some (Inl IndexError, 1)"
    using tb by (simp add: frame_rows_def)
  have C: "\<exists>weights. cluster_lmp_data demo_lib ?C 0 (DataFrame (demo_day_sheet ?c)) 1 None =
             Some (Inr ([(1, map (\<lambda>t. (int t, if t < 24 then clamp1 (?c ! t) else ?c ! t))
                              [0..<25])], weights), Suc 0)"
    using tc by (simp add: frame_rows_def del: upt_rec_numeral cong: if_cong)
  have Ag: "dict2_get [(1, map (\<lambda>t. (int t, clamp1 (?a ! t))) [0..<24])] 1 0 = Inr 2"
    "dict2_get [(1, map (\<lambda>t. (int t, clamp1 (?a ! t))) [0..<24])] 1 23 = Inr 0"
    using a23 by (simp_all add: dict2_get_def map_of_hours clamp1_def
        del: upt_rec_numeral)
  have Cg: "dict2_get [(1, map (\<lambda>t. (int t, if t < 24 then clamp1 (?c ! t) else ?c ! t))
                              [0..<25])] 1 23 = Inr 0"
    "dict2_get [(1, map (\<lambda>t. (int t, if t < 24 then clamp1 (?c ! t) else ?c ! t))
                              [0..<25])] 1 24 = Inr (- 1)"
    using c24 by (simp_all add: dict2_get_def map_of_hours clamp1_def
        del: upt_rec_numeral)
  show ?thesis using A B C Ag Cg by blast
qed

subsection \<open>The weights of the clusters\<close>

text \<open>
  Claim C7. When the fit returns one label per day-column of the daily table, each the
  index of one of the \<open>n_clusters\<close> clusters, the weights that \<open>cluster_lmp_data\<close> returns are
  \<open>weights[0][k + 1]\<close> for the clusters \<open>k = 0, \<dots>, n_clusters - 1\<close>, each the number of days
  that the fit labels with \<open>k\<close>; so they are keyed by \<open>1, \<dots>, n_clusters\<close>, each is a natural
  number, and they sum to the number of day-columns.
\<close>

theorem cluster_weights_sum:
  assumes "reconfigure_raw_data self raw_data = Some (Inr (daily_data, sc))"
      and "KMeans_fit lib g n_clusters daily_data = (Inr km, g')"
      and "length (labels km) = length daily_data"
      and "\<forall>l\<in>set (labels km). 0 \<le> l \<and> l < n_clusters"
      and "cluster_lmp_data lib self g raw_data n_clusters scen = Some (Inr (lmp_data, weights), g'')"
  shows "weights = [(0, map (\<lambda>k. (int k + 1, real (length (filter (\<lambda>l. l = int k) (labels km)))))
                          [0..<nat n_clusters])]
       \<and> (\<exists>ws. weights = [(0, ws)] \<and> map fst ws = [1..n_clusters]
            \<and> (\<forall>w\<in>set (map snd ws). w \<in> \<nat>)
            \<and> sum_list (map snd ws) = real (length daily_data))"
proof -
  let ?wc = "count_weights (labels km) (nat n_clusters)"
  let ?ws = "map (\<lambda>k. (int k + 1, ?wc ! k)) [0..<nat n_clusters]"
  have post: "cluster_post n_clusters km = Inr (lmp_data, weights)"
    using assms(1,2,5) by (simp add: cluster_lmp_data_def)
  note w = cluster_post_weights [OF post]
  have n: "0 \<le> n_clusters" and ws: "weights = [(0, ?ws)]" using w by auto
  have cnt: "?ws = map (\<lambda>k. (int k + 1, real (length (filter (\<lambda>l. l = int k) (labels km)))))
                     [0..<nat n_clusters]"
    by (rule map_cong) (simp_all add: count_weights_nth)
  have fst: "map fst ?ws = [1..n_clusters]"
    using n upto_as_map [of "nat n_clusters"] by (simp add: comp_def)
  have snd: "map snd ?ws = ?wc"
    using map_nth [of ?wc] count_weights_props(1) [of "labels km" "nat n_clusters"]
    by (simp add: comp_def)
  have "filter (\<lambda>l. 0 \<le> l \<and> l < int (nat n_clusters)) (labels km) = labels km"
    using assms(4) n by (auto intro!: filter_True)
  then have sum: "sum_list ?wc = real (length daily_data)"
    using count_weights_props(3) [of "labels km" "nat n_clusters"] assms(3) by simp
  have nat: "\<forall>w\<in>set ?wc. w \<in> \<nat>"
    using count_weights_props(2) [of "labels km" "nat n_clusters"] by (simp add: list_all_iff)
  have ex: "\<exists>ws. weights = [(0, ws)] \<and> map fst ws = [1..n_clusters]
            \<and> (\<forall>w\<in>set (map snd ws). w \<in> \<nat>)
            \<and> sum_list (map snd ws) = real (length daily_data)"
  proof (intro exI [of _ ?ws] conjI)
    show "weights = [(0, ?ws)]" by (rule ws)
    show "map fst ?ws = [1..n_clusters]" by (rule fst)
    show "\<forall>w\<in>set (map snd ?ws). w \<in> \<nat>" unfolding snd by (rule nat)
    show "sum_list (map snd ?ws) = real (length daily_data)" unfolding snd by (rule sum)
  qed
  show ?thesis using ws cnt ex by simp
qed

text \<open>
  The weights of the concrete run: the fit labels the three days 0, 1, 0, so cluster 1 has
  weight 2 and cluster 2 has weight 1.
\<close>

theorem cluster_weights_sum_witness:
  "\<exists>lmp weights g.
      cluster_lmp_data demo_lib demo_model 0 (DataFrame demo_sheet) 2 None
        = Some (Inr (lmp, weights), g)
    \<and> weights = [(0, map (\<lambda>k. (int k + 1, real (length (filter (\<lambda>l. l = int k) [0, 1, 0]))))
                         [0..<2])]
    \<and> weights = [(0, [(1, 2), (2, 1)])]
    \<and> (\<exists>ws. weights = [(0, ws)] \<and> map fst ws = [1, 2] \<and> sum_list (map snd ws) = 3)"
proof -
  have h0: "horizon_length demo_model = 24" by (simp add: demo_model_def)
  have fit: "KMeans_fit demo_lib 0 2 demo_daily =
               (Inr \<lparr>cluster_centers = [replicate 24 10, replicate 24 20], labels = [0, 1, 0],
                     inertia = 0\<rparr>, 1)"
    using demo_fit_0 by (simp add: demo_lib_def)
  have t: "([(0, [(1, 2), (2, 1)])] :: dict2) =
             [(0, map (\<lambda>k. (int k + 1, real (length (filter (\<lambda>l. l = int k)
                  (labels \<lparr>cluster_centers = [replicate 24 10, replicate 24 20],
                            labels = [0, 1, 0], inertia = 0\<rparr>)))))
                    [0..<nat 2])]
         \<and> (\<exists>ws. ([(0, [(1, 2), (2, 1)])] :: dict2) = [(0, ws)] \<and> map fst ws = [1..2]
            \<and> (\<forall>w\<in>set (map snd ws). w \<in> \<nat>)
            \<and> sum_list (map snd ws) = real (length demo_daily))"
    by (rule cluster_weights_sum [OF demo_reconfigure fit _ _ demo_cluster_0 [OF h0]])
       (simp_all add: demo_daily_def)
  have a: "([(0, [(1, 2), (2, 1)])] :: dict2) =
             [(0, map (\<lambda>k. (int k + 1, real (length (filter (\<lambda>l. l = int k) [0, 1, 0]))))
                         [0..<2])]"
    using t [THEN conjunct1] by simp
  from t [THEN conjunct2] obtain ws :: "(int \<times> real) list" where
    "[(0, [(1, 2), (2, 1)])] = [(0, ws)]" "map fst ws = [1..2]"
    "sum_list (map snd ws) = real (length demo_daily)"
    by blast
  then have b: "\<exists>ws. ([(0, [(1, 2), (2, 1)])] :: dict2) = [(0, ws)] \<and> map fst ws = [1, 2]
                  \<and> sum_list (map snd ws) = 3"
    by (auto simp: upto_1_2 demo_daily_def)
  show ?thesis
  proof (intro exI conjI)
    show "cluster_lmp_data demo_lib demo_model 0 (DataFrame demo_sheet) 2 None =
            Some (Inr (demo_lmp 10 20, [(0, [(1, 2), (2, 1)])]), 1)"
      by (rule demo_cluster_0 [OF h0])
    show "([(0, [(1, 2), (2, 1)])] :: dict2) =
             [(0, map (\<lambda>k. (int k + 1, real (length (filter (\<lambda>l. l = int k) [0, 1, 0]))))
                         [0..<2])]"
      by (rule a)
    show "([(0, [(1, 2), (2, 1)])] :: dict2) = [(0, [(1, 2), (2, 1)])]" by (rule refl)
    show "([(0, [(1, 2), (2, 1)])] :: dict2) = [(0, [(1, 2), (2, 1)])]" by (rule refl)
    show "map fst [(1 :: int, 2 :: real), (2, 1)] = [1, 2]" by simp
    show "sum_list (map snd [(1 :: int, 2 :: real), (2, 1)]) = 3" by simp
  qed
qed

subsection \<open>The loader and the seed\<close>

text \<open>Assignments to different attributes commute.\<close>

lemma seed_outward:
  "self\<lparr>seed := s, set_years := a\<rparr> = self\<lparr>set_years := a, seed := s\<rparr>"
  "self\<lparr>seed := s, set_days := b\<rparr> = self\<lparr>set_days := b, seed := s\<rparr>"
  "self\<lparr>seed := s, n_time_points := c\<rparr> = self\<lparr>n_time_points := c, seed := s\<rparr>"
  "self\<lparr>seed := s, set_time := d\<rparr> = self\<lparr>set_time := d, seed := s\<rparr>"
  "self\<lparr>seed := s, LMP := l\<rparr> = self\<lparr>LMP := l, seed := s\<rparr>"
  "self\<lparr>seed := s, WEIGHTS := w\<rparr> = self\<lparr>WEIGHTS := w, seed := s\<rparr>"
  by (cases self, simp)+

lemma fill_times_seed:
  "fill_times kl kw lmp_data weights d ts (self\<lparr>seed := s\<rparr>) =
     (case fill_times kl kw lmp_data weights d ts self of (e, m) \<Rightarrow> (e, m\<lparr>seed := s\<rparr>))"
proof (induction ts arbitrary: self)
  case Nil
  then show ?case by simp
next
  case (Cons t ts)
  show ?case
    by (simp add: Let_def seed_outward Cons.IH split: sum.splits)
qed

lemma fill_days_seed:
  "fill_days kl kw lmp_data weights ds ts (self\<lparr>seed := s\<rparr>) =
     (case fill_days kl kw lmp_data weights ds ts self of (e, m) \<Rightarrow> (e, m\<lparr>seed := s\<rparr>))"
proof (induction ds arbitrary: self)
  case Nil
  then show ?case by simp
next
  case (Cons d ds)
  show ?case
    by (simp add: fill_times_seed Cons.IH split: prod.splits option.splits)
qed

lemma cluster_lmp_data_seed:
  "cluster_lmp_data lib (self\<lparr>seed := s\<rparr>) g raw_data n hl = cluster_lmp_data lib self g raw_data n hl"
  using reconfigure_horizon [of "self\<lparr>seed := s\<rparr>" self raw_data]
  by (simp add: cluster_lmp_data_def)

lemma year_loop_rep_seed:
  "year_loop_rep lib full_data n hl days hours ys (self\<lparr>seed := s\<rparr>) g =
     map_option (\<lambda>(e, m, g'). (e, m\<lparr>seed := s\<rparr>, g'))
       (year_loop_rep lib full_data n hl days hours ys self g)"
proof (induction ys arbitrary: self g)
  case Nil
  then show ?case by simp
next
  case (Cons y ys)
  show ?case
    by (simp add: cluster_lmp_data_seed fill_days_seed Cons.IH
        split: option.splits sum.splits prod.splits)
qed

lemma fill_full_year_seed:
  "fill_full_year y price_data ts (self\<lparr>seed := s\<rparr>) =
     (case fill_full_year y price_data ts self of (e, m) \<Rightarrow> (e, m\<lparr>seed := s\<rparr>))"
proof (induction ts arbitrary: self)
  case Nil
  then show ?case by simp
next
  case (Cons t ts)
  show ?case
    by (simp add: seed_outward Cons.IH)
qed

lemma year_loop_full_seed:
  "year_loop_full lib full_data hours ys (self\<lparr>seed := s\<rparr>) =
     (case year_loop_full lib full_data hours ys self of (e, m) \<Rightarrow> (e, m\<lparr>seed := s\<rparr>))"
proof (induction ys arbitrary: self)
  case Nil
  then show ?case by simp
next
  case (Cons y ys)
  show ?case
    by (simp add: fill_full_year_seed Cons.IH split: option.splits sum.splits prod.splits)
qed

text \<open>
  \<open>append_lmp_data\<close> does the same whatever the configured seed: its outcome is a function of
  the sheet, the arguments, the horizon and the state of the generator.
\<close>

lemma append_lmp_data_seed:
  "append_lmp_data lib (self\<lparr>seed := s\<rparr>) g full_data column_name n_clusters hl =
     map_option (\<lambda>(e, m, g'). (e, m\<lparr>seed := s\<rparr>, g'))
       (append_lmp_data lib self g full_data column_name n_clusters hl)"
proof (cases column_name)
  case (Single c)
  show ?thesis
  proof (cases n_clusters)
    case None
    then show ?thesis using Single
      by (simp add: append_lmp_data_def append_single_full_def Let_def seed_outward
          split: sum.splits option.splits)
  next
    case (Some n)
    then show ?thesis using Single
      by (simp add: append_lmp_data_def append_single_rep_def Let_def cluster_lmp_data_seed
          fill_days_seed seed_outward split: sum.splits option.splits prod.splits)
  qed
next
  case (Multi ys)
  show ?thesis
  proof (cases n_clusters)
    case None
    then show ?thesis using Multi
      by (simp add: append_lmp_data_def append_multi_full_def Let_def year_loop_full_seed
          seed_outward split: sum.splits option.splits prod.splits)
  next
    case (Some n)
    then show ?thesis using Multi
      by (simp add: append_lmp_data_def append_multi_rep_def Let_def year_loop_rep_seed
          seed_outward split: sum.splits option.splits prod.splits)
  qed
qed

lemma map_of_const_hours:
  "map_of (map (\<lambda>t. (int t, a)) [0..<n]) k = (if 0 \<le> k \<and> k < int n then Some a else None)"
  by (induction n) (auto simp: map_add_def split: option.splits)

lemma demo_lmp_get:
  "dict2_get (demo_lmp a b) d t =
     (if (d = 1 \<or> d = 2) \<and> 0 \<le> t \<and> t < 24 then Inr (if d = 1 then a else b) else Inl KeyError)"
  by (simp add: dict2_get_def demo_lmp_def map_of_const_hours del: upt_rec_numeral)

lemma demo_weights_get:
  "dict2_get [(0, [(1, w1), (2, w2)])] 0 d =
     (if d = 1 then Inr w1 else if d = 2 then Inr w2 else Inl KeyError)"
  by (simp add: dict2_get_def)

lemma demo_fill:
  "\<exists>m. fill_days (\<lambda>t d. K2 t d) (\<lambda>d. K1 d) (demo_lmp a b) [(0, [(1, w1), (2, w2)])]
          [1, 2] [1..23] self = (None, m)
       \<and> m = self\<lparr>LMP := LMP m, WEIGHTS := WEIGHTS m\<rparr>
       \<and> LMP m (K2 1 1) = Some a \<and> LMP m (K2 1 2) = Some b
       \<and> WEIGHTS m (K1 1) = Some w1 \<and> WEIGHTS m (K1 2) = Some w2"
  by (simp add: demo_lmp_get demo_weights_get upto.simps)

lemma demo_call_0:
  assumes "horizon_length self = 24"
  shows "\<exists>m. append_lmp_data demo_lib self 0 demo_sheet (Single (LStr ''price'')) (Some 2) None
               = Some (None, m, 1)
           \<and> m = self\<lparr>set_years := None, set_days := Some [1, 2], n_time_points := Some 24,
                       set_time := Some [1..23], LMP := LMP m, WEIGHTS := WEIGHTS m\<rparr>
           \<and> LMP m (K2 1 1) = Some 10 \<and> LMP m (K2 1 2) = Some 20
           \<and> WEIGHTS m (K1 1) = Some 2 \<and> WEIGHTS m (K1 2) = Some 1"
proof -
  let ?self3 = "self\<lparr>set_years := None, set_days := Some [1, 2], n_time_points := Some 24,
                      set_time := Some [1..23], LMP := Map.empty, WEIGHTS := Map.empty\<rparr>"
  have h: "horizon_length ?self3 = 24" using assms by simp
  obtain m where m: "fill_days (\<lambda>t d. K2 t d) (\<lambda>d. K1 d) (demo_lmp 10 20) [(0, [(1, 2), (2, 1)])]
          [1, 2] [1..23] ?self3 = (None, m)"
       "m = ?self3\<lparr>LMP := LMP m, WEIGHTS := WEIGHTS m\<rparr>"
       "LMP m (K2 1 1) = Some 10" "LMP m (K2 1 2) = Some 20"
       "WEIGHTS m (K1 1) = Some 2" "WEIGHTS m (K1 2) = Some 1"
    using demo_fill [of 10 20 2 1 ?self3] by blast
  have call: "append_lmp_data demo_lib self 0 demo_sheet (Single (LStr ''price'')) (Some 2) None
               = Some (None, m, 1)"
    unfolding append_lmp_data_def append_single_rep_def
    by (simp add: RangeSet_def upto_1_2 Let_def demo_cluster_0 [OF h] m(1)
          del: fill_days.simps fill_times.simps)
  have "m = self\<lparr>set_years := None, set_days := Some [1, 2], n_time_points := Some 24,
                       set_time := Some [1..23], LMP := LMP m, WEIGHTS := WEIGHTS m\<rparr>"
    by (subst m(2)) simp
  then show ?thesis using call m(3-6) by blast
qed

lemma demo_call_1:
  assumes "horizon_length self = 24"
  shows "\<exists>m. append_lmp_data demo_lib self 1 demo_sheet (Single (LStr ''price'')) (Some 2) None
               = Some (None, m, 2)
           \<and> m = self\<lparr>set_years := None, set_days := Some [1, 2], n_time_points := Some 24,
                       set_time := Some [1..23], LMP := LMP m, WEIGHTS := WEIGHTS m\<rparr>
           \<and> LMP m (K2 1 1) = Some 20 \<and> LMP m (K2 1 2) = Some 10
           \<and> WEIGHTS m (K1 1) = Some 1 \<and> WEIGHTS m (K1 2) = Some 2"
proof -
  let ?self3 = "self\<lparr>set_years := None, set_days := Some [1, 2], n_time_points := Some 24,
                      set_time := Some [1..23], LMP := Map.empty, WEIGHTS := Map.empty\<rparr>"
  have h: "horizon_length ?self3 = 24" using assms by simp
  obtain m where m: "fill_days (\<lambda>t d. K2 t d) (\<lambda>d. K1 d) (demo_lmp 20 10) [(0, [(1, 1), (2, 2)])]
          [1, 2] [1..23] ?self3 = (None, m)"
       "m = ?self3\<lparr>LMP := LMP m, WEIGHTS := WEIGHTS m\<rparr>"
       "LMP m (K2 1 1) = Some 20" "LMP m (K2 1 2) = Some 10"
       "WEIGHTS m (K1 1) = Some 1" "WEIGHTS m (K1 2) = Some 2"
    using demo_fill [of 20 10 1 2 ?self3] by blast
  have c1: "cluster_lmp_data demo_lib ?self3 (Suc 0) (DataFrame demo_sheet) 2 None =
              Some (Inr (demo_lmp 20 10, [(0, [(1, 1), (2, 2)])]), 2)"
    using demo_cluster_1 [OF h] by simp
  have call: "append_lmp_data demo_lib self 1 demo_sheet (Single (LStr ''price'')) (Some 2) None
               = Some (None, m, 2)"
    unfolding append_lmp_data_def append_single_rep_def
    by (simp add: RangeSet_def upto_1_2 Let_def c1 m(1)
          del: fill_days.simps fill_times.simps)
  have "m = self\<lparr>set_years := None, set_days := Some [1, 2], n_time_points := Some 24,
                       set_time := Some [1..23], LMP := LMP m, WEIGHTS := WEIGHTS m\<rparr>"
    by (subst m(2)) simp
  then show ?thesis using call m(3-6) by blast
qed

text \<open>
  Claim C2. \<open>append_lmp_data\<close> and \<open>cluster_lmp_data\<close> never seed the generator, so the fit
  starts from the state the previous fit left. Two calls in a row on the same model, with
  the same sheet, the same arguments and the same configured seed 20, both succeed, and
  with a fit whose cluster numbering depends on the generator they end with different
  \<open>WEIGHTS\<close> and different \<open>LMP\<close>. (Lemma \<open>append_lmp_data_seed\<close>: the outcome of a call does
  not depend on the configured seed at all.)
\<close>

theorem append_lmp_data_ignores_seed:
  "\<exists>m1 m2.
     append_lmp_data demo_lib demo_model 0 demo_sheet (Single (LStr ''price'')) (Some 2) None
       = Some (None, m1, 1)
   \<and> append_lmp_data demo_lib m1 1 demo_sheet (Single (LStr ''price'')) (Some 2) None
       = Some (None, m2, 2)
   \<and> seed m1 = 20 \<and> seed m2 = 20
   \<and> horizon_length m1 = 24 \<and> horizon_length m2 = 24
   \<and> WEIGHTS m1 (K1 1) = Some 2 \<and> WEIGHTS m2 (K1 1) = Some 1
   \<and> LMP m1 (K2 1 1) = Some 10 \<and> LMP m2 (K2 1 1) = Some 20"
proof -
  have h0: "horizon_length demo_model = 24" by (simp add: demo_model_def)
  obtain m1 where m1:
    "append_lmp_data demo_lib demo_model 0 demo_sheet (Single (LStr ''price'')) (Some 2) None
       = Some (None, m1, 1)"
    "m1 = demo_model\<lparr>set_years := None, set_days := Some [1, 2], n_time_points := Some 24,
                       set_time := Some [1..23], LMP := LMP m1, WEIGHTS := WEIGHTS m1\<rparr>"
    "LMP m1 (K2 1 1) = Some 10" "WEIGHTS m1 (K1 1) = Some 2"
    using demo_call_0 [OF h0] by blast
  have s1: "seed m1 = 20" "horizon_length m1 = 24"
    by (subst m1(2), simp add: demo_model_def)+
  obtain m2 where m2:
    "append_lmp_data demo_lib m1 1 demo_sheet (Single (LStr ''price'')) (Some 2) None
       = Some (None, m2, 2)"
    "m2 = m1\<lparr>set_years := None, set_days := Some [1, 2], n_time_points := Some 24,
                set_time := Some [1..23], LMP := LMP m2, WEIGHTS := WEIGHTS m2\<rparr>"
    "LMP m2 (K2 1 1) = Some 20" "WEIGHTS m2 (K1 1) = Some 1"
    using demo_call_1 [OF s1(2)] by blast
  have s2: "seed m2 = 20" "horizon_length m2 = 24"
    by (subst m2(2), simp add: s1)+
  show ?thesis using m1(1,3,4) m2(1,3,4) s1 s2 by blast
qed

subsection \<open>The representative-day branches of the loader\<close>

text \<open>The filling loops assign \<open>LMP\<close> and \<open>WEIGHTS\<close> only, under the keys they are given.\<close>

lemma fill_times_frame:
  "fill_times kl kw lmp_data weights d ts self = (e, m) \<Longrightarrow>
     \<exists>l w. m = self\<lparr>LMP := l, WEIGHTS := w\<rparr>"
proof (induction ts arbitrary: self)
  case Nil
  then have "m = self\<lparr>LMP := LMP self, WEIGHTS := WEIGHTS self\<rparr>" by simp
  then show ?case by blast
next
  case (Cons t ts)
  show ?case
  proof (cases "dict2_get lmp_data d t")
    case (Inl x)
    then have "m = self\<lparr>LMP := LMP self, WEIGHTS := WEIGHTS self\<rparr>" using Cons.prems by simp
    then show ?thesis by blast
  next
    case v: (Inr v)
    show ?thesis
    proof (cases "dict2_get weights 0 d")
      case (Inl x)
      then have "m = self\<lparr>LMP := (LMP self)(kl t \<mapsto> v)\<rparr>"
        using Cons.prems v by (simp add: Let_def)
      then have "m = self\<lparr>LMP := (LMP self)(kl t \<mapsto> v), WEIGHTS := WEIGHTS self\<rparr>"
        by simp
      then show ?thesis by blast
    next
      case w: (Inr w)
      let ?s = "self\<lparr>LMP := (LMP self)(kl t \<mapsto> v), WEIGHTS := (WEIGHTS self)(kw \<mapsto> w)\<rparr>"
      have "fill_times kl kw lmp_data weights d ts ?s = (e, m)"
        using Cons.prems v w by (simp add: Let_def)
      from Cons.IH [OF this] obtain l' w' where "m = ?s\<lparr>LMP := l', WEIGHTS := w'\<rparr>" by blast
      then have "m = self\<lparr>LMP := l', WEIGHTS := w'\<rparr>" by simp
      then show ?thesis by blast
    qed
  qed
qed

lemma fill_times_dom:
  "fill_times kl kw lmp_data weights d ts self = (e, m) \<Longrightarrow>
     dom (LMP m) \<subseteq> dom (LMP self) \<union> kl ` set ts
   \<and> dom (WEIGHTS m) \<subseteq> insert kw (dom (WEIGHTS self))
   \<and> (e = None \<longrightarrow>
         dom (LMP m) = dom (LMP self) \<union> kl ` set ts
       \<and> dom (WEIGHTS m) = dom (WEIGHTS self) \<union> (if ts = [] then {} else {kw}))"
proof (induction ts arbitrary: self)
  case Nil
  then show ?case by auto
next
  case (Cons t ts)
  show ?case
  proof (cases "dict2_get lmp_data d t")
    case (Inl x)
    then show ?thesis using Cons.prems by auto
  next
    case v: (Inr v)
    show ?thesis
    proof (cases "dict2_get weights 0 d")
      case (Inl x)
      then have "e = Some x" "m = self\<lparr>LMP := (LMP self)(kl t \<mapsto> v)\<rparr>"
        using Cons.prems v by (simp_all add: Let_def)
      then show ?thesis by auto
    next
      case w: (Inr w)
      let ?s = "self\<lparr>LMP := (LMP self)(kl t \<mapsto> v), WEIGHTS := (WEIGHTS self)(kw \<mapsto> w)\<rparr>"
      have "fill_times kl kw lmp_data weights d ts ?s = (e, m)"
        using Cons.prems v w by (simp add: Let_def)
      note ih = Cons.IH [OF this]
      have s: "dom (LMP ?s) = insert (kl t) (dom (LMP self))"
        "dom (WEIGHTS ?s) = insert kw (dom (WEIGHTS self))" by auto
      show ?thesis using ih unfolding s by (auto split: if_splits)
    qed
  qed
qed

lemma fill_days_frame:
  "fill_days kl kw lmp_data weights ds ts self = (e, m) \<Longrightarrow>
     \<exists>l w. m = self\<lparr>LMP := l, WEIGHTS := w\<rparr>"
proof (induction ds arbitrary: self)
  case Nil
  then have "m = self\<lparr>LMP := LMP self, WEIGHTS := WEIGHTS self\<rparr>" by simp
  then show ?case by blast
next
  case (Cons d ds)
  obtain e1 m1 where f: "fill_times (\<lambda>t. kl t d) (kw d) lmp_data weights d ts self = (e1, m1)"
    by (cases "fill_times (\<lambda>t. kl t d) (kw d) lmp_data weights d ts self")
  from fill_times_frame [OF f] obtain l1 w1 where m1: "m1 = self\<lparr>LMP := l1, WEIGHTS := w1\<rparr>"
    by blast
  show ?case
  proof (cases e1)
    case (Some x)
    then have "m = m1" using Cons.prems f by simp
    then show ?thesis using m1 by blast
  next
    case None
    then have "fill_days kl kw lmp_data weights ds ts m1 = (e, m)"
      using Cons.prems f by simp
    from Cons.IH [OF this] obtain l' w' where "m = m1\<lparr>LMP := l', WEIGHTS := w'\<rparr>" by blast
    then have "m = self\<lparr>LMP := l', WEIGHTS := w'\<rparr>" unfolding m1 by simp
    then show ?thesis by blast
  qed
qed

lemma fill_days_dom:
  "fill_days kl kw lmp_data weights ds ts self = (e, m) \<Longrightarrow>
     dom (LMP m) \<subseteq> dom (LMP self) \<union> {kl t d | t d. t \<in> set ts \<and> d \<in> set ds}
   \<and> dom (WEIGHTS m) \<subseteq> dom (WEIGHTS self) \<union> kw ` set ds
   \<and> (e = None \<longrightarrow>
         dom (LMP m) = dom (LMP self) \<union> {kl t d | t d. t \<in> set ts \<and> d \<in> set ds}
       \<and> dom (WEIGHTS m) = dom (WEIGHTS self) \<union> (if ts = [] then {} else kw ` set ds))"
proof (induction ds arbitrary: self)
  case Nil
  then show ?case by auto
next
  case (Cons d ds)
  obtain e1 m1 where f: "fill_times (\<lambda>t. kl t d) (kw d) lmp_data weights d ts self = (e1, m1)"
    by (cases "fill_times (\<lambda>t. kl t d) (kw d) lmp_data weights d ts self")
  note ft = fill_times_dom [OF f]
  have split: "{kl t d' | t d'. t \<in> set ts \<and> d' \<in> set (d # ds)} =
               (\<lambda>t. kl t d) ` set ts \<union> {kl t d' | t d'. t \<in> set ts \<and> d' \<in> set ds}"
    by auto
  show ?case
  proof (cases e1)
    case (Some x)
    then have "e = Some x" "m = m1" using Cons.prems f by auto
    then show ?thesis using ft unfolding split by auto
  next
    case None
    then have "fill_days kl kw lmp_data weights ds ts m1 = (e, m)"
      using Cons.prems f by simp
    note ih = Cons.IH [OF this]
    have m1: "dom (LMP m1) = dom (LMP self) \<union> (\<lambda>t. kl t d) ` set ts"
      "dom (WEIGHTS m1) = dom (WEIGHTS self) \<union> (if ts = [] then {} else {kw d})"
      using ft None by auto
    show ?thesis using ih unfolding split m1 by (auto split: if_splits)
  qed
qed

text \<open>What the branch for one price signal and representative days sets and populates.\<close>

lemma append_single_rep_sets:
  assumes "append_lmp_data lib self g full_data (Single c) (Some n) hl = Some (e, m, g')"
      and "ntp = (case hl of Some h \<Rightarrow> h | None \<Rightarrow> 24)"
      and "0 \<le> n" and "1 \<le> ntp"
  shows "set_days m = Some [1..n] \<and> n_time_points m = Some ntp \<and> set_time m = Some [1..ntp - 1]
       \<and> dom (LMP m) \<subseteq> {K2 t d | t d. t \<in> {1..ntp - 1} \<and> d \<in> {1..n}}
       \<and> dom (WEIGHTS m) \<subseteq> K1 ` {1..n}
       \<and> (e = None \<longrightarrow>
             dom (LMP m) = {K2 t d | t d. t \<in> {1..ntp - 1} \<and> d \<in> {1..n}}
           \<and> dom (WEIGHTS m) = (if ntp = 1 then {} else K1 ` {1..n}))"
proof -
  define s where "s = self\<lparr>set_years := None, set_days := Some [1..n], n_time_points := Some ntp,
                   set_time := Some [1..ntp - 1], LMP := Map.empty, WEIGHTS := Map.empty\<rparr>"
  have r1: "RangeSet 1 n = Inr [1..n]" "RangeSet 1 (ntp - 1) = Inr [1..ntp - 1]"
    using assms(3,4) by (simp_all add: RangeSet_def)
  have run: "(case cluster_lmp_data lib s g (DataFrame full_data) n hl of
               None \<Rightarrow> None
             | Some (Inl e, g') \<Rightarrow> Some (Some e, s, g')
             | Some (Inr (lmp_data, weights), g') \<Rightarrow>
                 (case fill_days (\<lambda>t d. K2 t d) (\<lambda>d. K1 d) lmp_data weights [1..n] [1..ntp - 1] s of
                    (err, self4) \<Rightarrow> Some (err, self4, g'))) = Some (e, m, g')"
    using assms(1) r1 unfolding append_lmp_data_def append_single_rep_def s_def assms(2) [symmetric]
    by (simp add: Let_def assms(2) [symmetric])
  have s: "set_days s = Some [1..n]" "n_time_points s = Some ntp" "set_time s = Some [1..ntp - 1]"
    "dom (LMP s) = {}" "dom (WEIGHTS s) = {}"
    by (simp_all add: s_def)
  have emp: "([1..ntp - 1] = []) = (ntp = 1)" using assms(4) by auto
  show ?thesis
  proof (cases "cluster_lmp_data lib s g (DataFrame full_data) n hl")
    case None
    then show ?thesis using run by simp
  next
    case (Some r)
    obtain res g1 where r: "r = (res, g1)" by (cases r)
    show ?thesis
    proof (cases res)
      case (Inl x)
      then have "m = s" "e = Some x" using run Some r by auto
      then show ?thesis using s by auto
    next
      case (Inr dd)
      obtain lmp_data weights where dd: "dd = (lmp_data, weights)" by (cases dd)
      have f: "fill_days (\<lambda>t d. K2 t d) (\<lambda>d. K1 d) lmp_data weights [1..n] [1..ntp - 1] s = (e, m)"
        using run Some r Inr dd by (auto split: prod.splits)
      obtain l w where m: "m = s\<lparr>LMP := l, WEIGHTS := w\<rparr>"
        using fill_days_frame [OF f] by blast
      have fields: "set_days m = Some [1..n]" "n_time_points m = Some ntp"
        "set_time m = Some [1..ntp - 1]"
        using s(1-3) by (simp_all add: m)
      have sets: "set [1..ntp - 1] = {1..ntp - 1}" "set [1..n] = {1..n}" by simp_all
      note d = fill_days_dom [OF f, unfolded s(4,5) sets emp]
      show ?thesis using fields d by auto
    qed
  qed
qed

text \<open>
  \<open>cluster_lmp_data\<close> begins with \<open>raw_data.columns\<close>. Handed one column of the sheet, a
  \<open>Series\<close>, it raises \<open>AttributeError\<close>, so the loop over the years stops in its first
  round, before any entry of \<open>LMP\<close> or \<open>WEIGHTS\<close> is written.
\<close>

lemma cluster_lmp_data_Series:
  "cluster_lmp_data lib self g (Series col) n hl = Some (Inl AttributeError, g)"
  by (simp add: cluster_lmp_data_def reconfigure_raw_data_def)

lemma year_loop_rep_raises:
  "ys \<noteq> [] \<Longrightarrow>
   \<exists>e. year_loop_rep lib full_data n hl days hours ys self g = Some (Some e, self, g)"
  by (cases ys) (auto simp: cluster_lmp_data_Series split: option.splits)

text \<open>What the branch for several years and representative days sets.\<close>

lemma append_multi_rep_sets:
  assumes "append_lmp_data lib self g full_data (Multi ys) (Some n) hl = Some (e, m, g')"
      and "ntp = (case hl of Some h \<Rightarrow> h | None \<Rightarrow> 24)"
      and "years_of lib ys = Inr js" and "0 \<le> n" and "0 \<le> ntp"
  shows "set_days m = Some [1..n] \<and> n_time_points m = Some ntp \<and> set_time m = Some [1..ntp]
       \<and> (ys \<noteq> [] \<longrightarrow> e \<noteq> None)
       \<and> LMP m = Map.empty \<and> WEIGHTS m = Map.empty"
proof -
  define s where "s = self\<lparr>set_years := Some js, set_days := Some [1..n], n_time_points := Some ntp,
                   set_time := Some [1..ntp], LMP := Map.empty, WEIGHTS := Map.empty\<rparr>"
  have r1: "RangeSet 1 n = Inr [1..n]" "RangeSet 1 ntp = Inr [1..ntp]"
    using assms(4,5) by (simp_all add: RangeSet_def)
  have run: "year_loop_rep lib full_data n hl [1..n] [1..ntp] ys s g = Some (e, m, g')"
    using assms(1,3) r1 unfolding append_lmp_data_def append_multi_rep_def s_def
    by (simp add: Let_def assms(2) [symmetric])
  have "m = s \<and> (ys \<noteq> [] \<longrightarrow> e \<noteq> None)"
  proof (cases "ys = []")
    case True
    then show ?thesis using run by simp
  next
    case False
    then show ?thesis
      using year_loop_rep_raises [OF False, of lib full_data n hl "[1..n]" "[1..ntp]" s g] run
      by auto
  qed
  then show ?thesis by (simp add: s_def)
qed

lemma append_multi_rep_raises:
  assumes "ys \<noteq> []"
  shows "\<exists>e m. append_lmp_data lib self g full_data (Multi ys) (Some n) hl = Some (Some e, m, g)
           \<and> (LMP m = LMP self \<and> WEIGHTS m = WEIGHTS self
                \<or> LMP m = Map.empty \<and> WEIGHTS m = Map.empty)"
proof (cases "years_of lib ys")
  case (Inl e)
  then show ?thesis by (simp add: append_lmp_data_def append_multi_rep_def)
next
  case years: (Inr js)
  show ?thesis
  proof (cases "RangeSet 1 n")
    case (Inl e)
    then show ?thesis using years by (simp add: append_lmp_data_def append_multi_rep_def)
  next
    case days: (Inr ds)
    show ?thesis
    proof (cases "RangeSet 1 (case hl of Some h \<Rightarrow> h | None \<Rightarrow> 24)")
      case (Inl e)
      then show ?thesis using years days
        by (simp add: append_lmp_data_def append_multi_rep_def Let_def)
    next
      case (Inr ts)
      let ?s = "self\<lparr>set_years := Some js, set_days := Some ds,
                 n_time_points := Some (case hl of Some h \<Rightarrow> h | None \<Rightarrow> 24),
                 set_time := Some ts, LMP := Map.empty, WEIGHTS := Map.empty\<rparr>"
      obtain e where "year_loop_rep lib full_data n hl ds ts ys ?s g = Some (Some e, ?s, g)"
        using year_loop_rep_raises [OF assms, of lib full_data n hl ds ts ?s g] by blast
      then show ?thesis using years days Inr
        by (simp add: append_lmp_data_def append_multi_rep_def Let_def)
    qed
  qed
qed

text \<open>
  Claim C5. Both representative-day branches set the days to \<open>RangeSet(1, n_clusters)\<close>; the
  branch for one price signal sets the hours to \<open>RangeSet(self._n_time_points - 1)\<close> and
  fills \<open>LMP\<close> under the keys \<open>(t, d)\<close> and \<open>WEIGHTS\<close> under the keys \<open>d\<close> (lemma
  \<open>append_single_rep_sets\<close>), the branch for several years sets the hours to
  \<open>RangeSet(self._n_time_points)\<close> (lemma \<open>append_multi_rep_sets\<close>). But the branch for several
  years does not populate \<open>LMP\<close> and \<open>WEIGHTS\<close>: on the sheet with the year column 2021 the
  call raises \<open>AttributeError\<close> and leaves both dictionaries empty, as it does for every
  non-empty list of years (lemma \<open>append_multi_rep_raises\<close>).
\<close>

theorem append_lmp_data_multi_year_raises:
  "\<exists>m. append_lmp_data demo_lib demo_model 0 demo_sheet (Multi [LInt 2021]) (Some 2) None
           = Some (Some AttributeError, m, 0)
       \<and> set_years m = Some [2021] \<and> set_days m = Some [1, 2] \<and> set_time m = Some [1..24]
       \<and> LMP m = Map.empty \<and> WEIGHTS m = Map.empty"
proof -
  have col: "map_of demo_sheet (LInt 2021) = Some demo_prices" by (simp add: demo_sheet_def)
  show ?thesis
    by (simp add: append_lmp_data_def append_multi_rep_def py_int_def RangeSet_def upto_1_2
        Let_def col cluster_lmp_data_Series)
qed

subsection \<open>Ramping constraints\<close>

lemma bind_err_Inr:
  "(bind_err x f = Inr b) = (\<exists>a. x = Inr a \<and> f a = Inr b)"
  by (cases x) (simp_all add: bind_err_def)

lemma build_constraint_map_of:
  "build_constraint rule ts = Inr cs \<Longrightarrow>
   map fst cs = ts \<and> (\<forall>t\<in>set ts. \<exists>c. map_of cs t = Some c \<and> rule t = Inr c)"
proof (induction ts arbitrary: cs)
  case Nil
  then show ?case by simp
next
  case (Cons a ts)
  from Cons.prems obtain c0 cs0 where
    r: "rule a = Inr c0" "build_constraint rule ts = Inr cs0" "cs = (a, c0) # cs0"
    by (auto simp: bind_err_Inr)
  show ?case using Cons.IH [OF r(2)] r(1,3) by auto
qed

lemma define_modes_keys: "map fst (fst (define_modes ps i)) = map fst ps"
proof (induction ps arbitrary: i)
  case Nil
  then show ?case by simp
next
  case (Cons pb ps)
  obtain p b where pb: "pb = (p, b)" by (cases pb)
  show ?case unfolding pb by (simp add: split_def Let_def Cons.IH)
qed

lemma period_attr_no_periods: "period_attr prd [] t attr = Inl IndexError"
  by (simp add: period_attr_def py_nth_def bind_err_def)

lemma ramp_up_con_rule_zero_min:
  assumes "ramp_up_con_rule prd rtp sl 0 ru t = Inr c"
  shows "\<exists>p1 p0 s1 o1 o0 l r.
           period_attr prd rtp t opt_power = Inr p1
         \<and> period_attr prd rtp (t - 1) opt_power = Inr p0
         \<and> period_attr prd rtp t startup = Inr s1
         \<and> period_attr prd rtp t op_mode = Inr o1
         \<and> period_attr prd rtp (t - 1) op_mode = Inr o0
         \<and> c = Le l r
         \<and> (\<forall>env. eval env l = eval env p1 - eval env p0
                  \<and> eval env r = sl * eval env s1 + ru * eval env o1)"
  using assms unfolding ramp_up_con_rule_def bind_err_Inr
  by (elim exE conjE) (auto)

lemma add_ramping_constraints_built:
  assumes "add_ramping_constraints sl sd ru rd mn self = (None, self')"
      and "mp_model self' = Some m'"
  shows "\<exists>up rtp. ramp_up_con m' = Some up
         \<and> build_constraint (ramp_up_con_rule (period m') rtp sl mn ru)
             [2..int (length (period m')) - 1] = Inr up
         \<and> (rtp = [] \<or> rtp = map fst (period m'))"
proof -
  obtain m where m: "mp_model self = Some m"
    using assms(1) by (cases "mp_model self") (simp_all add: add_ramping_constraints_def)
  obtain p11 where p11: "map_of (period m) [1, 1] = Some p11"
    using assms(1) m
    by (cases "map_of (period m) [1, 1]")
       (auto simp: add_ramping_constraints_def Let_def RangeSet_def split: if_splits)
  define fresh where "fresh = (op_mode p11 = None)"
  define prd where "prd = (if fresh then fst (define_modes (period m) (next_id self)) else period m)"
  define rtp where "rtp = (if fresh then map fst (period m) else [])"
  have res: "\<exists>up. ramp_up_con m' = Some up
               \<and> build_constraint (ramp_up_con_rule prd rtp sl mn ru) [2..int (length (period m)) - 1]
                   = Inr up \<and> period m' = prd"
    using assms m p11 unfolding add_ramping_constraints_def prd_def rtp_def fresh_def
    by (auto simp: Let_def RangeSet_def split_def split: if_splits sum.splits)
  have "length prd = length (period m)" "fresh \<Longrightarrow> map fst prd = map fst (period m)"
    using define_modes_keys [of "period m" "next_id self"]
    by (auto simp: prd_def dest: arg_cong [where f = length])
  then have "length (period m') = length (period m)" "rtp = [] \<or> rtp = map fst (period m')"
    using res by (auto simp: rtp_def)
  then show ?thesis using res by auto
qed

lemma ramp_up_con_at_index:
  assumes "add_ramping_constraints 100 sd 110 rd 0 self = (None, self')"
      and "mp_model self' = Some m'"
      and "2 \<le> t" and "t \<le> int (length (period m')) - 1"
  shows "\<exists>up c p1 p0 s1 o1 o0 l r.
           ramp_up_con m' = Some up \<and> map fst up = [2..int (length (period m')) - 1]
         \<and> map_of up t = Some c
         \<and> period_attr (period m') (map fst (period m')) t opt_power = Inr p1
         \<and> period_attr (period m') (map fst (period m')) (t - 1) opt_power = Inr p0
         \<and> period_attr (period m') (map fst (period m')) t startup = Inr s1
         \<and> period_attr (period m') (map fst (period m')) t op_mode = Inr o1
         \<and> period_attr (period m') (map fst (period m')) (t - 1) op_mode = Inr o0
         \<and> c = Le l r
         \<and> (\<forall>env. eval env l = eval env p1 - eval env p0
                \<and> eval env r = 100 * eval env s1 + 110 * eval env o1)"
proof -
  from add_ramping_constraints_built [OF assms(1,2)] obtain up rtp where b:
    "ramp_up_con m' = Some up"
    "build_constraint (ramp_up_con_rule (period m') rtp 100 0 110)
       [2..int (length (period m')) - 1] = Inr up"
    "rtp = [] \<or> rtp = map fst (period m')"
    by blast
  note k = build_constraint_map_of [OF b(2)]
  have t: "t \<in> set [2..int (length (period m')) - 1]" using assms(3,4) by simp
  then obtain c where c: "map_of up t = Some c"
    "ramp_up_con_rule (period m') rtp 100 0 110 t = Inr c"
    using k by blast
  have "rtp \<noteq> []"
  proof
    assume "rtp = []"
    then show False using c(2)
      by (simp add: ramp_up_con_rule_def period_attr_no_periods bind_err_def)
  qed
  then have rtp: "rtp = map fst (period m')" using b(3) by simp
  from ramp_up_con_rule_zero_min [OF c(2) [unfolded rtp]] b(1) k [THEN conjunct1] c(1)
  show ?thesis by blast
qed

lemma demo_define_modes:
  "define_modes [([1, 1], b1), ([2, 1], b2), ([3, 1], b3)] i =
     ([([1, 1], b1\<lparr>op_mode := Some (ExprObj i (fst (aggregate (sub_blocks b1) (Num 0) (Num 0)))),
                     startup := Some (ExprObj (i + 1) (snd (aggregate (sub_blocks b1) (Num 0) (Num 0))))\<rparr>),
       ([2, 1], b2\<lparr>op_mode := Some (ExprObj (i + 2) (fst (aggregate (sub_blocks b2) (Num 0) (Num 0)))),
                     startup := Some (ExprObj (i + 3) (snd (aggregate (sub_blocks b2) (Num 0) (Num 0))))\<rparr>),
       ([3, 1], b3\<lparr>op_mode := Some (ExprObj (i + 4) (fst (aggregate (sub_blocks b3) (Num 0) (Num 0)))),
                     startup := Some (ExprObj (i + 5) (snd (aggregate (sub_blocks b3) (Num 0) (Num 0))))\<rparr>)],
      i + 6)"
  by (simp add: split_def Let_def numeral_eq_Suc)

lemma demo_ramp:
  "\<exists>m1 mp1 c.
     add_ramping_constraints 100 100 110 110 0 demo_plant = (None, m1)
   \<and> mp_model m1 = Some mp1 \<and> next_id m1 = 6
   \<and> period mp1 = [([1, 1], demo_defined ''p1'' 0), ([2, 1], demo_defined ''p2'' 2),
                    ([3, 1], demo_defined ''p3'' 4)]
   \<and> ramp_up_con mp1 = Some [(2, c)]
   \<and> c = Le (Sub (Var ''p3.power'') (Var ''p2.power''))
             (Add (Add (Sub (Mul (Num 100) (ExprObj 5 (Add (Num 0) (Var ''p3.startup''))))
                            (Mul (Num 0) (ExprObj 3 (Add (Num 0) (Var ''p2.startup'')))))
                       (Mul (Num 110) (ExprObj 4 (Add (Num 0) (Var ''p3.op_mode'')))))
                  (Mul (Num 0) (Sub (ExprObj 4 (Add (Num 0) (Var ''p3.op_mode'')))
                                    (ExprObj 2 (Add (Num 0) (Var ''p2.op_mode''))))))"
  by (simp add: add_ramping_constraints_def demo_plant_def demo_model_def demo_mp_def
      demo_define_modes demo_defined_def demo_period_def RangeSet_def upto.simps Let_def
      ramp_up_con_rule_def ramp_down_con_rule_def period_attr_def py_nth_def bind_err_def
      del: define_modes.simps)

lemma demo_define_modes4:
  "define_modes [([1, 1], b1), ([2, 1], b2), ([3, 1], b3), ([4, 1], b4)] i =
     ([([1, 1], b1\<lparr>op_mode := Some (ExprObj i (fst (aggregate (sub_blocks b1) (Num 0) (Num 0)))),
                     startup := Some (ExprObj (i + 1) (snd (aggregate (sub_blocks b1) (Num 0) (Num 0))))\<rparr>),
       ([2, 1], b2\<lparr>op_mode := Some (ExprObj (i + 2) (fst (aggregate (sub_blocks b2) (Num 0) (Num 0)))),
                     startup := Some (ExprObj (i + 3) (snd (aggregate (sub_blocks b2) (Num 0) (Num 0))))\<rparr>),
       ([3, 1], b3\<lparr>op_mode := Some (ExprObj (i + 4) (fst (aggregate (sub_blocks b3) (Num 0) (Num 0)))),
                     startup := Some (ExprObj (i + 5) (snd (aggregate (sub_blocks b3) (Num 0) (Num 0))))\<rparr>),
       ([4, 1], b4\<lparr>op_mode := Some (ExprObj (i + 6) (fst (aggregate (sub_blocks b4) (Num 0) (Num 0)))),
                     startup := Some (ExprObj (i + 7) (snd (aggregate (sub_blocks b4) (Num 0) (Num 0))))\<rparr>)],
      i + 8)"
  by (simp add: split_def Let_def numeral_eq_Suc)

text \<open>
  Claim C6. With \<open>startup_limit = 100\<close>, \<open>ramp_up_limit = 110\<close> and \<open>minimum_opt_limit = 0\<close>
  there is one ramp-up constraint for every index \<open>t\<close> of \<open>2, \<dots>, len(period) - 1\<close>, and it
  is equal in value to \<open>opt_power[q] - opt_power[q'] <= 100 * startup[q] + 110 * op_mode[q]\<close>
  for \<open>q = range_time_periods[t]\<close> and \<open>q' = range_time_periods[t - 1]\<close> (lemma
  \<open>ramp_up_con_at_index\<close>). The index set counts the periods from 1, as the keys of
  \<open>period\<close> do, but \<open>range_time_periods\<close> is a Python list and counts them from 0. So on the
  model of the four periods \<open>(1, 1), \<dots>, (4, 1)\<close> the constraints are those of the indices 2
  and 3, the constraint of index 2 relates the periods 3 and 2, and the constraint of index 3
  relates the periods 4 and 3: no constraint relates the interior period 2 to period 1, and
  the last period, which is not interior, is constrained.
\<close>

theorem add_ramping_constraints_period_shift:
  "\<exists>self' m' c2 c3.
     add_ramping_constraints 100 100 110 110 0 demo_plant4 = (None, self')
   \<and> mp_model self' = Some m'
   \<and> map fst (period m') = [[1, 1], [2, 1], [3, 1], [4, 1]]
   \<and> ramp_up_con m' = Some [(2, c2), (3, c3)]
   \<and> c2 = Le (Sub (Var ''p3.power'') (Var ''p2.power''))
             (Add (Add (Sub (Mul (Num 100) (ExprObj 5 (Add (Num 0) (Var ''p3.startup''))))
                            (Mul (Num 0) (ExprObj 3 (Add (Num 0) (Var ''p2.startup'')))))
                       (Mul (Num 110) (ExprObj 4 (Add (Num 0) (Var ''p3.op_mode'')))))
                  (Mul (Num 0) (Sub (ExprObj 4 (Add (Num 0) (Var ''p3.op_mode'')))
                                    (ExprObj 2 (Add (Num 0) (Var ''p2.op_mode''))))))
   \<and> c3 = Le (Sub (Var ''p4.power'') (Var ''p3.power''))
             (Add (Add (Sub (Mul (Num 100) (ExprObj 7 (Add (Num 0) (Var ''p4.startup''))))
                            (Mul (Num 0) (ExprObj 5 (Add (Num 0) (Var ''p3.startup'')))))
                       (Mul (Num 110) (ExprObj 6 (Add (Num 0) (Var ''p4.op_mode'')))))
                  (Mul (Num 0) (Sub (ExprObj 6 (Add (Num 0) (Var ''p4.op_mode'')))
                                    (ExprObj 4 (Add (Num 0) (Var ''p3.op_mode''))))))"
  by (simp add: add_ramping_constraints_def demo_plant4_def demo_mp4_def demo_plant_def
      demo_model_def demo_mp_def demo_define_modes4 demo_period_def RangeSet_def upto.simps
      Let_def ramp_up_con_rule_def ramp_down_con_rule_def period_attr_def py_nth_def
      bind_err_def del: define_modes.simps)

subsection \<open>Repeated calls\<close>

text \<open>The guard of \<open>add_ramping_constraints\<close>, and its absence in \<open>add_startup_shutdown\<close>.\<close>

lemma add_ramping_constraints_guard:
  assumes "mp_model self = Some m" and "map_of (period m) [1, 1] = Some p11"
      and "op_mode p11 \<noteq> None"
      and "add_ramping_constraints sl sd ru rd mn self = (err, self')"
  shows "\<exists>m'. mp_model self' = Some m' \<and> period m' = period m \<and> next_id self' = next_id self"
  using assms
  by (auto simp: add_ramping_constraints_def Let_def split: sum.splits)

lemma add_startup_shutdown_defines:
  assumes "mp_model self = Some m"
      and "add_startup_shutdown UT DT self = (None, self')"
  shows "\<exists>m'. mp_model self' = Some m'
            \<and> period m' = fst (define_modes (period m) (next_id self))
            \<and> next_id self' = snd (define_modes (period m) (next_id self))"
  using assms
  by (auto simp: add_startup_shutdown_def Let_def split_def split: sum.splits)

text \<open>
  Claim C9. \<open>add_ramping_constraints\<close> builds \<open>op_mode\<close> and \<open>startup\<close> of the periods only
  when \<open>period[1, 1]\<close> has no \<open>op_mode\<close> yet (lemma \<open>add_ramping_constraints_guard\<close> below),
  but \<open>add_startup_shutdown\<close> has no such guard. Called after \<open>add_ramping_constraints\<close> on
  the same model, with the same operation models attached, it replaces the expressions of
  every period by new \<open>Expression\<close> objects: those of \<open>period[1, 1]\<close> were the objects 0
  and 1 and are the objects 6 and 7 afterwards.
\<close>

theorem add_startup_shutdown_redefines_modes:
  "\<exists>m1 mp1 m2 mp2 p1 p2.
     add_ramping_constraints 100 100 110 110 0 demo_plant = (None, m1)
   \<and> mp_model m1 = Some mp1
   \<and> add_startup_shutdown 1 1 m1 = (None, m2)
   \<and> mp_model m2 = Some mp2
   \<and> map_of (period mp1) [1, 1] = Some p1 \<and> map_of (period mp2) [1, 1] = Some p2
   \<and> sub_blocks p1 = sub_blocks p2
   \<and> op_mode p1 = Some (ExprObj 0 (Add (Num 0) (Var ''p1.op_mode'')))
   \<and> op_mode p2 = Some (ExprObj 6 (Add (Num 0) (Var ''p1.op_mode'')))
   \<and> startup p1 = Some (ExprObj 1 (Add (Num 0) (Var ''p1.startup'')))
   \<and> startup p2 = Some (ExprObj 7 (Add (Num 0) (Var ''p1.startup'')))"
proof -
  obtain m1 mp1 where d:
    "add_ramping_constraints 100 100 110 110 0 demo_plant = (None, m1)"
    "mp_model m1 = Some mp1" "next_id m1 = 6"
    "period mp1 = [([1, 1], demo_defined ''p1'' 0), ([2, 1], demo_defined ''p2'' 2),
                    ([3, 1], demo_defined ''p3'' 4)]"
    using demo_ramp by blast
  have up: "[1..2] = [1, 2::int]" by (simp add: upto.simps)
  have "\<exists>m2 mp2 p2. add_startup_shutdown 1 1 m1 = (None, m2) \<and> mp_model m2 = Some mp2
          \<and> map_of (period mp2) [1, 1] = Some p2
          \<and> sub_blocks p2 = sub_blocks (demo_defined ''p1'' 0)
          \<and> op_mode p2 = Some (ExprObj 6 (Add (Num 0) (Var ''p1.op_mode'')))
          \<and> startup p2 = Some (ExprObj 7 (Add (Num 0) (Var ''p1.startup'')))"
    by (simp add: add_startup_shutdown_def d(2,3,4) demo_define_modes RangeSet_def up Let_def
        demo_defined_def demo_period_def startup_con1_rule_def stutdown_con1_rule_def
        period_attr_def py_nth_def bind_err_def upto.simps
        del: define_modes.simps)
  moreover have "map_of (period mp1) [1, 1] = Some (demo_defined ''p1'' 0)"
    by (simp add: d(4))
  moreover have "op_mode (demo_defined ''p1'' 0) = Some (ExprObj 0 (Add (Num 0) (Var ''p1.op_mode'')))"
    "startup (demo_defined ''p1'' 0) = Some (ExprObj 1 (Add (Num 0) (Var ''p1.startup'')))"
    by (simp_all add: demo_defined_def)
  ultimately show ?thesis using d(1,2) by metis
qed

subsection \<open>The objective\<close>

lemma build_cashflows_success:
  assumes "build_cashflows lifetime r tax oc orev objective self = (None, self')"
  shows "\<exists>c5 npv ann.
           c5 ''NPV'' = Some (ExpressionC (next_id self) npv)
         \<and> c5 ''Annualized_NPV'' = Some (ExpressionC (next_id self + 1) ann)
         \<and> (\<forall>n. (\<exists>e s. c5 n = Some (ObjectiveC e s)) \<longrightarrow> n \<in> objectives self)
         \<and> components self' =
             (if objective = ''NPV'' then c5(''obj'' \<mapsto> ObjectiveC (ExprObj (next_id self) npv) maximize)
              else if objective = ''Annualized NPV''
                then c5(''obj'' \<mapsto> ObjectiveC (ExprObj (next_id self + 1) ann) maximize)
              else if objective = ''Net Profit''
                then c5(''obj'' \<mapsto> ObjectiveC (Var ''NET_PROFIT'') maximize)
              else c5)"
proof -
  let ?run = "build_cashflows lifetime r tax oc orev objective self"
  obtain capex_expr fom_expr where
    d: "design_sums (blocks self) (Num 0) (Num 0) = (capex_expr, fom_expr)"
    by (cases "design_sums (blocks self) (Num 0) (Num 0)")
  have ok: "fst ?run = None" using assms by simp
  have l: "lifetime \<noteq> 0"
  proof
    assume "lifetime = 0"
    then have "fst ?run = Some ZeroDivisionError" by (simp add: build_cashflows_def d)
    then show False using ok by simp
  qed
  obtain m where m: "mp_model self = Some m"
  proof (cases "mp_model self")
    case None
    then have "fst ?run = Some AttributeError" using l by (simp add: build_cashflows_def d Let_def)
    then show ?thesis using ok by simp
  qed
  obtain cash where c: "sum_net_cash (period m) (Num 0) = Inr cash"
  proof (cases "sum_net_cash (period m) (Num 0)")
    case (Inl e)
    then have "fst ?run = Some e" using l m by (simp add: build_cashflows_def d Let_def)
    then show ?thesis using ok by simp
  qed
  have z: "\<not> (1 + r = 0 \<and> 0 < lifetime \<or> r = 0)"
  proof
    assume "1 + r = 0 \<and> 0 < lifetime \<or> r = 0"
    then have "fst ?run = Some ZeroDivisionError"
      using l m c by (simp add: build_cashflows_def d Let_def)
    then show False using ok by simp
  qed
  define cf where "cf = (1 - power_int (1 + r) (- lifetime)) / r"
  have cf: "cf \<noteq> 0"
  proof
    assume "cf = 0"
    then have "fst ?run = Some ZeroDivisionError"
      using l m c z unfolding cf_def by (simp add: build_cashflows_def d Let_def)
    then show False using ok by simp
  qed
  define income where
    "income = Sub (Sub (Add (Var ''NET_CASH_INFLOW'') (Num orev)) (Num oc)) (Var ''FOM'')"
  define npv where "npv = Sub (Mul (Num cf) (Var ''NET_PROFIT'')) (Var ''CAPEX'')"
  define ann where "ann = Sub (Var ''NET_PROFIT'') (Mul (Num (1 / cf)) (Var ''CAPEX''))"
  define c5 where
    "c5 = (components self)
            (''CAPEX'' \<mapsto> VarC NonNegativeReals,
             ''capex_calculation'' \<mapsto> ConstraintC (Eq (Var ''CAPEX'') capex_expr),
             ''FOM'' \<mapsto> VarC NonNegativeReals,
             ''fom_calculation'' \<mapsto> ConstraintC (Eq (Var ''FOM'') fom_expr),
             ''DEPRECIATION'' \<mapsto> VarC NonNegativeReals,
             ''dep_calculation'' \<mapsto>
               ConstraintC (Eq (Var ''DEPRECIATION'') (Div (Var ''CAPEX'') (Num (of_int lifetime)))),
             ''NET_CASH_INFLOW'' \<mapsto> VarC AnyReals,
             ''net_cash_inflow_calculation'' \<mapsto> ConstraintC (Eq (Var ''NET_CASH_INFLOW'') cash),
             ''CORP_TAX'' \<mapsto> VarC NonNegativeReals,
             ''corp_tax_calculation'' \<mapsto>
               ConstraintC (Ge (Var ''CORP_TAX'') (Mul (Num tax) (Sub income (Var ''DEPRECIATION'')))),
             ''NET_PROFIT'' \<mapsto> VarC AnyReals,
             ''net_profit_calculation'' \<mapsto>
               ConstraintC (Eq (Var ''NET_PROFIT'') (Sub income (Var ''CORP_TAX''))),
             ''NPV'' \<mapsto> ExpressionC (next_id self) npv,
             ''Annualized_NPV'' \<mapsto> ExpressionC (next_id self + 1) ann)"
  have run: "?run =
      (None, self\<lparr>components :=
                (if objective = ''NPV''
                 then c5(''obj'' \<mapsto> ObjectiveC (ExprObj (next_id self) npv) maximize)
                 else if objective = ''Annualized NPV''
                 then c5(''obj'' \<mapsto> ObjectiveC (ExprObj (next_id self + 1) ann) maximize)
                 else if objective = ''Net Profit''
                 then c5(''obj'' \<mapsto> ObjectiveC (Var ''NET_PROFIT'') maximize)
                 else c5),
              next_id := next_id self + 2\<rparr>)"
    using l m c z cf unfolding cf_def c5_def npv_def ann_def income_def cf_def
    by (simp add: build_cashflows_def d Let_def del: fun_upd_apply)
  have comps: "components self' =
                (if objective = ''NPV''
                 then c5(''obj'' \<mapsto> ObjectiveC (ExprObj (next_id self) npv) maximize)
                 else if objective = ''Annualized NPV''
                 then c5(''obj'' \<mapsto> ObjectiveC (ExprObj (next_id self + 1) ann) maximize)
                 else if objective = ''Net Profit''
                 then c5(''obj'' \<mapsto> ObjectiveC (Var ''NET_PROFIT'') maximize)
                 else c5)"
    using assms unfolding run by auto
  have 1: "c5 ''NPV'' = Some (ExpressionC (next_id self) npv)"
    and 2: "c5 ''Annualized_NPV'' = Some (ExpressionC (next_id self + 1) ann)"
    by (simp_all add: c5_def)
  have 3: "n \<in> objectives self" if "c5 n = Some (ObjectiveC e s)" for n e s
    using that unfolding c5_def objectives_def
    by (auto split: if_splits)
  show ?thesis using 1 2 3 comps by blast
qed

lemma build_cashflows_unknown_objective:
  assumes "build_cashflows lifetime r tax oc orev objective self = (None, self')"
      and "objective \<noteq> ''NPV''" "objective \<noteq> ''Annualized NPV''" "objective \<noteq> ''Net Profit''"
  shows "objectives self' \<subseteq> objectives self"
proof -
  obtain c5 where
    "\<forall>n. (\<exists>e s. c5 n = Some (ObjectiveC e s)) \<longrightarrow> n \<in> objectives self"
    "components self' = c5"
    using build_cashflows_success [OF assms(1)] assms(2-4) by auto
  then show ?thesis unfolding objectives_def by auto
qed

lemma build_cashflows_returns:
  assumes "lifetime \<noteq> 0" and "mp_model self = Some m"
      and "sum_net_cash (period m) (Num 0) = Inr cash"
      and "\<not> (1 + r = 0 \<and> 0 < lifetime \<or> r = 0)"
      and "(1 - power_int (1 + r) (- lifetime)) / r \<noteq> 0"
  shows "fst (build_cashflows lifetime r tax oc orev objective self) = None"
  using assms by (simp add: build_cashflows_def Let_def split_def)

text \<open>
  Claim C8. When \<open>build_cashflows\<close> returns and \<open>objective\<close> is one of \<open>"NPV"\<close>,
  \<open>"Annualized NPV"\<close> and \<open>"Net Profit"\<close>, the model has the component \<open>obj\<close>, a maximisation
  objective, and no other objective that it did not have before. Its expression is the
  \<open>Expression\<close> object \<open>NPV\<close>, the object \<open>Annualized_NPV\<close> or the variable \<open>NET_PROFIT\<close>,
  as the string selects; for \<open>"Net Profit"\<close> it is the variable \<open>NET_PROFIT\<close> and neither of the
  two \<open>Expression\<close> objects. (For any other string no objective is attached: lemma
  \<open>build_cashflows_unknown_objective\<close>.)
\<close>

theorem build_cashflows_objective:
  assumes "build_cashflows lifetime r tax oc orev objective self = (None, self')"
      and "objective = ''NPV'' \<or> objective = ''Annualized NPV'' \<or> objective = ''Net Profit''"
  shows "\<exists>e i j npv ann.
           components self' ''obj'' = Some (ObjectiveC e maximize)
         \<and> objectives self' - objectives self \<subseteq> {''obj''}
         \<and> components self' ''NPV'' = Some (ExpressionC i npv)
         \<and> components self' ''Annualized_NPV'' = Some (ExpressionC j ann)
         \<and> i \<noteq> j
         \<and> (objective = ''NPV'' \<longrightarrow> e = ExprObj i npv)
         \<and> (objective = ''Annualized NPV'' \<longrightarrow> e = ExprObj j ann)
         \<and> (objective = ''Net Profit'' \<longrightarrow>
               e = Var ''NET_PROFIT'' \<and> e \<noteq> ExprObj i npv \<and> e \<noteq> ExprObj j ann)"
proof -
  obtain c5 npv ann where c:
    "c5 ''NPV'' = Some (ExpressionC (next_id self) npv)"
    "c5 ''Annualized_NPV'' = Some (ExpressionC (next_id self + 1) ann)"
    "\<forall>n. (\<exists>e s. c5 n = Some (ObjectiveC e s)) \<longrightarrow> n \<in> objectives self"
    "components self' =
             (if objective = ''NPV'' then c5(''obj'' \<mapsto> ObjectiveC (ExprObj (next_id self) npv) maximize)
              else if objective = ''Annualized NPV''
                then c5(''obj'' \<mapsto> ObjectiveC (ExprObj (next_id self + 1) ann) maximize)
              else if objective = ''Net Profit''
                then c5(''obj'' \<mapsto> ObjectiveC (Var ''NET_PROFIT'') maximize)
              else c5)"
    using build_cashflows_success [OF assms(1)] by blast
  define e where "e = (if objective = ''NPV'' then ExprObj (next_id self) npv
                       else if objective = ''Annualized NPV'' then ExprObj (next_id self + 1) ann
                       else Var ''NET_PROFIT'')"
  have comps: "components self' = c5(''obj'' \<mapsto> ObjectiveC e maximize)"
    using c(4) assms(2) by (auto simp: e_def)
  have "objectives self' - objectives self \<subseteq> {''obj''}"
    using c(3) unfolding comps objectives_def by (auto split: if_splits)
  moreover have "components self' ''obj'' = Some (ObjectiveC e maximize)"
    by (simp add: comps)
  moreover have "components self' ''NPV'' = Some (ExpressionC (next_id self) npv)"
    "components self' ''Annualized_NPV'' = Some (ExpressionC (next_id self + 1) ann)"
    by (simp_all add: comps c(1,2))
  moreover have "objective = ''NPV'' \<longrightarrow> e = ExprObj (next_id self) npv"
    "objective = ''Annualized NPV'' \<longrightarrow> e = ExprObj (next_id self + 1) ann"
    "objective = ''Net Profit'' \<longrightarrow>
       e = Var ''NET_PROFIT'' \<and> e \<noteq> ExprObj (next_id self) npv
     \<and> e \<noteq> ExprObj (next_id self + 1) ann"
    by (simp_all add: e_def)
  moreover have "next_id self \<noteq> next_id self + 1" by simp
  ultimately show ?thesis by blast
qed

theorem build_cashflows_objective_witness:
  "\<exists>self'. build_cashflows 30 (8 / 100) (2 / 10) 0 0 ''Net Profit'' demo_plant = (None, self')
          \<and> components self' ''obj'' = Some (ObjectiveC (Var ''NET_PROFIT'') maximize)
          \<and> objectives self' = {''obj''}"
proof -
  have m: "mp_model demo_plant = Some demo_mp" by (simp add: demo_plant_def)
  have c: "sum_net_cash (period demo_mp) (Num 0) =
             Inr (Add (Add (Add (Num 0) (Var ''p1.cash'')) (Var ''p2.cash'')) (Var ''p3.cash''))"
    by (simp add: demo_mp_def demo_period_def)
  have "(25 / 27 :: real) ^ 30 < (25 / 27) ^ 0"
    by (rule power_strict_decreasing) simp_all
  then have p: "power_int (1 + 8 / 100 :: real) (- 30) < 1"
    by (simp add: power_int_def)
  have cf: "(1 - power_int (1 + 8 / 100 :: real) (- 30)) / (8 / 100) \<noteq> 0"
    using p by simp
  have "fst (build_cashflows 30 (8 / 100) (2 / 10) 0 0 ''Net Profit'' demo_plant) = None"
    by (rule build_cashflows_returns [OF _ m c _ cf]) simp_all
  then obtain self' where
    run: "build_cashflows 30 (8 / 100) (2 / 10) 0 0 ''Net Profit'' demo_plant = (None, self')"
    by (cases "build_cashflows 30 (8 / 100) (2 / 10) 0 0 ''Net Profit'' demo_plant") auto
  have none: "objectives demo_plant = {}"
    by (simp add: objectives_def demo_plant_def demo_model_def)
  obtain e i j npv ann where t:
    "components self' ''obj'' = Some (ObjectiveC e maximize)"
    "objectives self' - objectives demo_plant \<subseteq> {''obj''}"
    "objective = ''Net Profit'' \<longrightarrow>
       e = Var ''NET_PROFIT'' \<and> e \<noteq> ExprObj i npv \<and> e \<noteq> ExprObj j ann"
    if "objective = ''Net Profit''" for objective
    using build_cashflows_objective [OF run] by blast
  have "''obj'' \<in> objectives self'" using t(1) by (auto simp: objectives_def)
  then have "objectives self' = {''obj''}" using t(2) none by auto
  then show ?thesis using run t(1,3) by auto
qed

end
